theory Spec2Isabelle
  imports Complex_Main "HOL-Library.Word" "HOL-Library.Log_Nat"
begin

unbundle bit_operations_syntax

section \<open>Machine types of the target\<close>

text \<open>
  The sketch \<^verbatim>\<open>mvs_main.ino\<close> runs on an 8-bit AVR (it includes \<^verbatim>\<open>avr/wdt.h\<close> and
  programs timer 1 through \<^verbatim>\<open>TCNT1\<close>, \<^verbatim>\<open>TCCR1A\<close>, \<^verbatim>\<open>OCR1A\<close>, \<^verbatim>\<open>TCCR1B\<close>). There
  \<^verbatim>\<open>int\<close> and \<^verbatim>\<open>unsigned int\<close> have 16 bits, \<^verbatim>\<open>unsigned long\<close> has 32 bits and
  \<^verbatim>\<open>float\<close> (as well as \<^verbatim>\<open>double\<close>) is the 32-bit binary format.

  A 16-bit \<^verbatim>\<open>int\<close> is kept as the word of its two's complement representation: \<open>sint\<close>
  reads its value, \<open>+\<close> and unary \<open>-\<close> are the machine operations, and the
  conversion to \<^verbatim>\<open>unsigned int\<close> that C++ applies when an \<^verbatim>\<open>int\<close> meets an
  \<^verbatim>\<open>unsigned int\<close> in a comparison is the identity on the word, the comparison then
  being the unsigned order \<open>\<le>\<close> of words.
\<close>

type_synonym int16 = "16 word"
type_synonym uint16 = "16 word"
type_synonym uint8 = "8 word"
type_synonym ulong = "32 word"

datatype level = LOW | HIGH

section \<open>Single precision arithmetic\<close>

text \<open>
  A finite \<^verbatim>\<open>float\<close> is modelled by the real number it denotes. Every arithmetic
  operation computes the exact real result and rounds it to a 24-bit significand, to
  nearest with ties to even. The exponent range is not bounded in the model: overflow,
  subnormal numbers and NaN are outside it.

  The concrete averages that this theory evaluates are results of operations whose
  exact results have at most 24 significant bits, so they are the same under any
  rounding; the theorems about the 50 Hz scenario use two properties of the rounding
  only: it is monotone, and its relative error is at most \<open>2\<^sup>-\<^sup>2\<^sup>4\<close>.
\<close>

text \<open>\<open>float_exponent x\<close> is \<open>\<lfloor>log\<^sub>2 \<bar>x\<bar>\<rfloor>\<close> for \<open>x \<noteq> 0\<close>.\<close>

definition float_exponent :: "real \<Rightarrow> int" where
  "float_exponent x =
     (if 1 \<le> \<bar>x\<bar> then bitlen \<lfloor>\<bar>x\<bar>\<rfloor> - 1 else - bitlen (\<lceil>1 / \<bar>x\<bar>\<rceil> - 1))"

definition pow2 :: "int \<Rightarrow> real" where
  "pow2 e = (if 0 \<le> e then 2 ^ nat e else 1 / 2 ^ nat (- e))"

definition round_ties_even :: "real \<Rightarrow> int" where
  "round_ties_even y =
     (let f = \<lfloor>y\<rfloor> in
      if y - of_int f < 1 / 2 then f
      else if 1 / 2 < y - of_int f then f + 1
      else if even f then f else f + 1)"

definition to_float :: "real \<Rightarrow> real" where
  "to_float x =
     (if x = 0 then 0
      else let q = pow2 (float_exponent x - 23)
           in of_int (round_ties_even (x / q)) * q)"

definition fadd :: "real \<Rightarrow> real \<Rightarrow> real" where
  "fadd a b = to_float (a + b)"

definition fsub :: "real \<Rightarrow> real \<Rightarrow> real" where
  "fsub a b = to_float (a - b)"

definition fdiv :: "real \<Rightarrow> real \<Rightarrow> real" where
  "fdiv a b = to_float (a / b)"

text \<open>The conversion \<^verbatim>\<open>(float)deltaMics\<close> of an \<^verbatim>\<open>unsigned long\<close>.\<close>

definition float_of_ulong :: "ulong \<Rightarrow> real" where
  "float_of_ulong w = to_float (real_of_int (uint w))"

text \<open>
  The conversion \<^verbatim>\<open>(unsigned int)x\<close> of a \<^verbatim>\<open>float\<close> discards the fractional part
  (truncation toward zero). A value outside the range of \<^verbatim>\<open>unsigned int\<close> is
  undefined behaviour in C++; the model reduces it modulo \<open>2\<^sup>1\<^sup>6\<close>.
\<close>

definition uint_of_float :: "real \<Rightarrow> uint16" where
  "uint_of_float x = word_of_int (if 0 \<le> x then \<lfloor>x\<rfloor> else \<lceil>x\<rceil>)"

section \<open>Program state\<close>

text \<open>
  The file-scope variables, the function-local \<^verbatim>\<open>static\<close> variables (\<^verbatim>\<open>stepMics\<close> of
  \<^verbatim>\<open>triggerDelay\<close>, the two timestamps of \<^verbatim>\<open>voltageCrossedThreshold\<close>), the registers
  of timer 1 and the two output pins. A register holds what the program wrote to it
  last: the counting of the timer hardware is not part of the model.
\<close>

record state =
  avgAboveThMics :: real
  avgBelowThMics :: real
  triacTriggerHoldoffMics :: int16
  stepMics :: int16
  tsLastAboveThMics :: ulong
  tsLastBelowThMics :: ulong
  TCNT1 :: uint16
  TCCR1A :: uint8
  OCR1A :: uint16
  TCCR1B :: uint8
  TRIAC_TRIGGER_PIN :: level
  DETECT_OUT_PIN :: level

definition halfPeriodMics :: uint16 where
  "halfPeriodMics = 10000"

definition minDelayMics :: uint16 where
  "minDelayMics = 200"

definition maxDelayMics :: uint16 where
  "maxDelayMics = halfPeriodMics - 1000"

text \<open>
  Bit numbers of \<^verbatim>\<open>TCCR1B\<close>, from the device header of the ATmega328P (the header is
  not part of the repository).
\<close>

definition CS10 :: nat where "CS10 = 0"
definition CS11 :: nat where "CS11 = 1"
definition WGM12 :: nat where "WGM12 = 3"

text \<open>
  The values of the initialisers. Timer registers and pins are as \<^verbatim>\<open>setup\<close> leaves
  them: timer stopped, trigger pin high (inactive).
\<close>

definition init_state :: state where
  "init_state =
     \<lparr> avgAboveThMics = 9600, avgBelowThMics = 150,
       triacTriggerHoldoffMics = halfPeriodMics, stepMics = - 17,
       tsLastAboveThMics = 0, tsLastBelowThMics = 0,
       TCNT1 = 0, TCCR1A = 0, OCR1A = 0, TCCR1B = 0,
       TRIAC_TRIGGER_PIN = HIGH, DETECT_OUT_PIN = LOW \<rparr>"

section \<open>The functions of the sketch\<close>

definition softStart :: "state \<Rightarrow> state" where
  "softStart s = s\<lparr>triacTriggerHoldoffMics := halfPeriodMics\<rparr>"

text \<open>
  \<^verbatim>\<open>triggerDelay\<close>: both comparisons have an \<^verbatim>\<open>int\<close> on the left and an
  \<^verbatim>\<open>unsigned int\<close> on the right, so they are unsigned comparisons. The addition
  \<^verbatim>\<open>triacTriggerHoldoffMics += stepMics\<close> is that of \<^verbatim>\<open>int\<close>; where it would overflow
  (undefined in C++) the model wraps around, as the machine's addition does.
\<close>

definition triggerDelay :: "state \<Rightarrow> uint16 \<times> state" where
  "triggerDelay s =
     (let s1 = s\<lparr>triacTriggerHoldoffMics := triacTriggerHoldoffMics s + stepMics s\<rparr>;
          s2 =
            (if triacTriggerHoldoffMics s1 \<le> minDelayMics then
               s1\<lparr>triacTriggerHoldoffMics := minDelayMics, stepMics := - stepMics s1\<rparr>
             else if maxDelayMics \<le> triacTriggerHoldoffMics s1 then
               s1\<lparr>triacTriggerHoldoffMics := maxDelayMics, stepMics := - stepMics s1\<rparr>
             else s1)
      in (triacTriggerHoldoffMics s2, s2))"

text \<open>
  The interrupt routine of the timer's compare match. The trigger pin is low for the
  40 microseconds that the routine waits and high again when it returns; the state
  after the routine is what the model gives.
\<close>

definition TIMER1_COMPA_vect :: "state \<Rightarrow> state" where
  "TIMER1_COMPA_vect s =
     (let s1 = s\<lparr>TRIAC_TRIGGER_PIN := LOW\<rparr>;
          s2 = s1\<lparr>TCCR1A := 0\<rparr>;
          s3 = s2\<lparr>TCCR1B := 0\<rparr>
      in s3\<lparr>TRIAC_TRIGGER_PIN := HIGH\<rparr>)"

definition scheduleTriacTrigger :: "uint16 \<Rightarrow> uint16 \<Rightarrow> state \<Rightarrow> state" where
  "scheduleTriacTrigger micsSinceZeroCross delayMics s =
     (if halfPeriodMics - halfPeriodMics div 32 < delayMics then s
      else
        let s1 = s\<lparr>TCNT1 := 0\<rparr>;
            s2 = s1\<lparr>TCCR1A := 0\<rparr>;
            ticks = (if micsSinceZeroCross < delayMics
                     then (delayMics - micsSinceZeroCross) div 4 else 0);
            s3 = s2\<lparr>OCR1A := (if ticks < 4 then 4 else ticks)\<rparr>
        in s3\<lparr>TCCR1B := push_bit CS10 1 OR push_bit CS11 1 OR push_bit WGM12 1\<rparr>)"

text \<open>
  The first argument that \<^verbatim>\<open>voltageCrossedThreshold\<close> passes to
  \<^verbatim>\<open>scheduleTriacTrigger\<close>: \<^verbatim>\<open>(unsigned int)((avgBelowThMics + 1.0) / 2)\<close>.
\<close>

definition zeroCrossMics :: "state \<Rightarrow> uint16" where
  "zeroCrossMics s = uint_of_float (fdiv (fadd (avgBelowThMics s) 1) 2)"

text \<open>
  The statement \<^verbatim>\<open>avg += ((float)deltaMics - avg) / 32.0\<close>, which the sketch
  applies to \<^verbatim>\<open>avgBelowThMics\<close> and to \<^verbatim>\<open>avgAboveThMics\<close>: \<open>smooth avg deltaMics\<close> is
  the value assigned.
\<close>

definition smooth :: "real \<Rightarrow> ulong \<Rightarrow> real" where
  "smooth avg deltaMics = fadd avg (fdiv (fsub (float_of_ulong deltaMics) avg) 32)"

text \<open>
  \<^verbatim>\<open>voltageCrossedThreshold\<close>. Its two reads of the environment are parameters:
  \<open>nowMics\<close> is the value of \<^verbatim>\<open>micros()\<close> and \<open>pin\<close> the value of
  \<^verbatim>\<open>digitalRead(VOLTAGE_THR_PIN)\<close>; \<open>LOW\<close> means that the mains voltage rose above the
  detection threshold. The subtraction of the timestamps is that of \<^verbatim>\<open>unsigned long\<close>.
\<close>

definition voltageCrossedThreshold :: "ulong \<Rightarrow> level \<Rightarrow> state \<Rightarrow> state" where
  "voltageCrossedThreshold nowMics pin s =
     (if pin = LOW then
        let s1 = s\<lparr>DETECT_OUT_PIN := HIGH\<rparr>;
            s2 = s1\<lparr>tsLastAboveThMics := nowMics\<rparr>;
            deltaMics = tsLastAboveThMics s2 - tsLastBelowThMics s2
        in if ucast halfPeriodMics < deltaMics then softStart s2
           else
             let s3 = s2\<lparr>avgBelowThMics := smooth (avgBelowThMics s2) deltaMics\<rparr>;
                 (delayMics, s4) = triggerDelay s3
             in scheduleTriacTrigger (zeroCrossMics s3) delayMics s4
      else
        let s1 = s\<lparr>DETECT_OUT_PIN := LOW\<rparr>;
            s2 = s1\<lparr>tsLastBelowThMics := nowMics\<rparr>;
            deltaMics = tsLastBelowThMics s2 - tsLastAboveThMics s2
        in if ucast halfPeriodMics < deltaMics then softStart s2
           else s2\<lparr>avgAboveThMics := smooth (avgAboveThMics s2) deltaMics\<rparr>)"

section \<open>Runs of the program\<close>

text \<open>
  The operations that change the state: the two interrupt routines, and the two helper
  functions called on their own. A run applies a list of operations in order.
\<close>

datatype operation =
  Edge ulong level
  | TimerExpired
  | TriggerDelay
  | SoftStart

fun exec :: "operation \<Rightarrow> state \<Rightarrow> state" where
  "exec (Edge nowMics pin) s = voltageCrossedThreshold nowMics pin s"
| "exec TimerExpired s = TIMER1_COMPA_vect s"
| "exec TriggerDelay s = snd (triggerDelay s)"
| "exec SoftStart s = softStart s"

fun run :: "operation list \<Rightarrow> state \<Rightarrow> state" where
  "run [] s = s"
| "run (ev # evs) s = run evs (exec ev s)"

text \<open>The values returned by \<open>n\<close> successive calls of \<^verbatim>\<open>triggerDelay\<close>.\<close>

fun delays :: "nat \<Rightarrow> state \<Rightarrow> uint16 list" where
  "delays 0 s = []"
| "delays (Suc n) s = fst (triggerDelay s) # delays n (snd (triggerDelay s))"

section \<open>The ramp as the specification words it\<close>

text \<open>
  The specification's rule for the delay generator, on unbounded integers: add the step
  to the holdoff; at or below the minimum clamp to the minimum and flip the sign of the
  step; at or above the maximum clamp to the maximum and flip the sign of the step. The
  pair is (holdoff, step).
\<close>

definition spec_nextDelay :: "int \<times> int \<Rightarrow> int \<times> int" where
  "spec_nextDelay hs =
     (let h = fst hs + snd hs in
      if h \<le> 200 then (200, - snd hs)
      else if 9000 \<le> h then (9000, - snd hs)
      else (h, snd hs))"

fun spec_delays :: "nat \<Rightarrow> int \<times> int \<Rightarrow> int list" where
  "spec_delays 0 hs = []"
| "spec_delays (Suc n) hs = fst (spec_nextDelay hs) # spec_delays n (spec_nextDelay hs)"

text \<open>
  The states in which the ramp runs: the holdoff between the minimum delay and the
  half period, and a step of at most 200 microseconds in either direction.
\<close>

definition ramp_ok :: "state \<Rightarrow> bool" where
  "ramp_ok s \<longleftrightarrow>
     200 \<le> sint (triacTriggerHoldoffMics s) \<and> sint (triacTriggerHoldoffMics s) \<le> 10000 \<and>
     - 200 \<le> sint (stepMics s) \<and> sint (stepMics s) \<le> 200"

text \<open>
  The values the holdoff takes: the half period, or a delay between the minimum and the
  maximum of the ramp.
\<close>

definition holdoff_ok :: "state \<Rightarrow> bool" where
  "holdoff_ok s \<longleftrightarrow>
     triacTriggerHoldoffMics s = halfPeriodMics \<or>
     (minDelayMics \<le> triacTriggerHoldoffMics s \<and> triacTriggerHoldoffMics s \<le> maxDelayMics)"

text \<open>
  The end-to-end scenario of an ideal 50 Hz mains: in cycle \<open>k = 0, 1, 2, \<dots>\<close> the voltage
  rises above the threshold at \<open>10000 k\<close> microseconds and falls below it at
  \<open>10000 k + 9600\<close>, the timestamps being those of the 32-bit microsecond counter.
  \<open>scenario n\<close> is the list of the edges of the first \<open>n\<close> cycles.
\<close>

fun scenario :: "nat \<Rightarrow> operation list" where
  "scenario 0 = []"
| "scenario (Suc n) =
     scenario n @ [Edge (10000 * of_nat n) LOW, Edge (10000 * of_nat n + 9600) HIGH]"

text \<open>
  The state after the rising edge of cycle \<open>k\<close> of the scenario, before the falling edge.
\<close>

definition after_rising :: "nat \<Rightarrow> state" where
  "after_rising k =
     voltageCrossedThreshold (10000 * of_nat k) LOW (run (scenario k) init_state)"

text \<open>
  Three rising edges, each 150 or 151 microseconds after the falling edge before it, so
  that the third one schedules the delay 8983.
\<close>

definition example_edges :: "operation list" where
  "example_edges = [Edge 150 LOW, Edge 200 HIGH, Edge 350 LOW, Edge 400 HIGH, Edge 551 LOW]"

section \<open>Constants\<close>

lemma cutoff_value: "halfPeriodMics - halfPeriodMics div 32 = 9688"
  by (simp add: halfPeriodMics_def)

lemma halfPeriod_ulong: "(ucast halfPeriodMics :: ulong) = 10000"
  by (simp add: halfPeriodMics_def)

lemma maxDelay_value: "maxDelayMics = 9000"
  by (simp add: maxDelayMics_def halfPeriodMics_def)

lemma TCCR1B_value: "(push_bit CS10 1 OR push_bit CS11 1 OR push_bit WGM12 1 :: uint8) = 11"
  by (simp add: CS10_def CS11_def WGM12_def)

section \<open>Mains loss: soft start\<close>

text \<open>
  Claim C1. When \<^verbatim>\<open>voltageCrossedThreshold\<close> handles an edge whose interval since the
  last edge of the opposite direction exceeds the half period of 10000 microseconds, it
  does what \<^verbatim>\<open>softStart\<close> does after recording the edge: the holdoff delay is exactly
  the half period afterwards, whatever it was before; neither average changes; and the
  step of the ramp and the four timer registers keep their values, so no trigger is
  scheduled.
\<close>

theorem softStart_on_long_interval:
  assumes "10000 < unat (nowMics - (if pin = LOW then tsLastBelowThMics s else tsLastAboveThMics s))"
  shows "voltageCrossedThreshold nowMics pin s =
           softStart (if pin = LOW then s\<lparr>DETECT_OUT_PIN := HIGH, tsLastAboveThMics := nowMics\<rparr>
                      else s\<lparr>DETECT_OUT_PIN := LOW, tsLastBelowThMics := nowMics\<rparr>)
         \<and> triacTriggerHoldoffMics (voltageCrossedThreshold nowMics pin s) = halfPeriodMics
         \<and> sint (triacTriggerHoldoffMics (voltageCrossedThreshold nowMics pin s)) = 10000
         \<and> avgAboveThMics (voltageCrossedThreshold nowMics pin s) = avgAboveThMics s
         \<and> avgBelowThMics (voltageCrossedThreshold nowMics pin s) = avgBelowThMics s
         \<and> stepMics (voltageCrossedThreshold nowMics pin s) = stepMics s
         \<and> TCNT1 (voltageCrossedThreshold nowMics pin s) = TCNT1 s
         \<and> TCCR1A (voltageCrossedThreshold nowMics pin s) = TCCR1A s
         \<and> OCR1A (voltageCrossedThreshold nowMics pin s) = OCR1A s
         \<and> TCCR1B (voltageCrossedThreshold nowMics pin s) = TCCR1B s"
proof -
  from assms
  have "(10000::ulong) < nowMics - (if pin = LOW then tsLastBelowThMics s else tsLastAboveThMics s)"
    by (simp add: word_less_nat_alt)
  then show ?thesis
    by (cases pin)
      (simp_all add: voltageCrossedThreshold_def halfPeriod_ulong softStart_def halfPeriodMics_def)
qed

text \<open>
  A gap of 25000 microseconds before a rising edge, from the initial state, and the
  same gap before a falling edge after the ramp has moved.
\<close>

theorem softStart_on_long_interval_witness:
  "10000 < unat (25000 - (if LOW = LOW then tsLastBelowThMics init_state
                          else tsLastAboveThMics init_state))
   \<and> sint (triacTriggerHoldoffMics (voltageCrossedThreshold 25000 LOW init_state)) = 10000
   \<and> avgBelowThMics (voltageCrossedThreshold 25000 LOW init_state) = 150
   \<and> avgAboveThMics (voltageCrossedThreshold 25000 LOW init_state) = 9600
   \<and> OCR1A (voltageCrossedThreshold 25000 LOW init_state) = 0
   \<and> TCCR1B (voltageCrossedThreshold 25000 LOW init_state) = 0"
  using softStart_on_long_interval [of 25000 LOW init_state]
  by (simp add: init_state_def softStart_def halfPeriodMics_def)

section \<open>Scheduling the trigger\<close>

text \<open>
  Claim C3, as stated, fails: the sketch compares the delay with
  \<^verbatim>\<open>halfPeriodMics - halfPeriodMics / 32\<close>, which is \<open>10000 - 312 = 9688\<close> in
  integer arithmetic, and skips only above it. The delay 9688 exceeds
  \<open>10000 \<times> 31 / 32 = 9687.5\<close>, and the timer is armed for it.
\<close>

theorem skip_above_31_32_counterexample:
  "real (unat halfPeriodMics) * 31 / 32 < real (unat (9688::uint16))
   \<and> scheduleTriacTrigger 0 9688 init_state \<noteq> init_state
   \<and> OCR1A (scheduleTriacTrigger 0 9688 init_state) = 2422
   \<and> TCCR1B (scheduleTriacTrigger 0 9688 init_state) = 11"
  by (simp add: scheduleTriacTrigger_def cutoff_value init_state_def CS10_def CS11_def
      WGM12_def halfPeriodMics_def)

text \<open>
  Claim C3, amended. For every call of \<^verbatim>\<open>scheduleTriacTrigger\<close> whose delay exceeds
  \<^verbatim>\<open>halfPeriodMics - halfPeriodMics / 32\<close> (9688 microseconds), no trigger is
  scheduled: the function returns the state it was given, no timer register written.
\<close>

theorem skip_above_cutoff:
  assumes "halfPeriodMics - halfPeriodMics div 32 < delayMics"
  shows "scheduleTriacTrigger micsSinceZeroCross delayMics s = s"
  using assms by (simp add: scheduleTriacTrigger_def)

theorem skip_above_cutoff_witness:
  "halfPeriodMics - halfPeriodMics div 32 < (9689::uint16)
   \<and> scheduleTriacTrigger 75 9689 init_state = init_state"
  using skip_above_cutoff [of 9689 75 init_state] by (simp add: cutoff_value)

text \<open>
  Claim C10. On the skip branch \<^verbatim>\<open>scheduleTriacTrigger\<close> changes nothing: the registers
  \<^verbatim>\<open>TCNT1\<close>, \<^verbatim>\<open>TCCR1A\<close>, \<^verbatim>\<open>OCR1A\<close> and \<^verbatim>\<open>TCCR1B\<close> keep their values, and so does
  the rest of the state, so a timer armed before stays as it was programmed.
\<close>

theorem skip_keeps_timer_program:
  assumes "halfPeriodMics - halfPeriodMics div 32 < delayMics"
  shows "TCNT1 (scheduleTriacTrigger micsSinceZeroCross delayMics s) = TCNT1 s
       \<and> TCCR1A (scheduleTriacTrigger micsSinceZeroCross delayMics s) = TCCR1A s
       \<and> OCR1A (scheduleTriacTrigger micsSinceZeroCross delayMics s) = OCR1A s
       \<and> TCCR1B (scheduleTriacTrigger micsSinceZeroCross delayMics s) = TCCR1B s
       \<and> scheduleTriacTrigger micsSinceZeroCross delayMics s = s"
  using assms by (simp add: scheduleTriacTrigger_def)

lemma armed_example:
  "scheduleTriacTrigger 75 8983 init_state = init_state\<lparr>OCR1A := 2227, TCCR1B := 11\<rparr>"
  by (simp add: scheduleTriacTrigger_def cutoff_value init_state_def CS10_def CS11_def
      WGM12_def)

text \<open>A timer armed for 2227 ticks is still armed for 2227 ticks after a request of 9700.\<close>

theorem skip_keeps_timer_program_witness:
  "halfPeriodMics - halfPeriodMics div 32 < (9700::uint16)
   \<and> OCR1A (scheduleTriacTrigger 75 9700 (scheduleTriacTrigger 75 8983 init_state)) = 2227
   \<and> TCCR1B (scheduleTriacTrigger 75 9700 (scheduleTriacTrigger 75 8983 init_state)) = 11"
  using skip_keeps_timer_program [of 9700 75 "scheduleTriacTrigger 75 8983 init_state"]
  by (simp add: cutoff_value armed_example)

lemma OCR1A_armed:
  "\<not> halfPeriodMics - halfPeriodMics div 32 < delayMics \<Longrightarrow>
   OCR1A (scheduleTriacTrigger micsSinceZeroCross delayMics s) =
     (let ticks = (if micsSinceZeroCross < delayMics
                   then (delayMics - micsSinceZeroCross) div 4 else 0)
      in if ticks < 4 then 4 else ticks)"
  by (simp add: scheduleTriacTrigger_def Let_def)

text \<open>
  Claim C4, as stated, fails: the sketch divides by 4 with the integer division of C++,
  which rounds down, not up. With 200 microseconds since the zero crossing and a delay
  of 221 the difference is 21; the compare register gets 5, and the ceiling of 21/4 is 6.
\<close>

theorem ticks_ceiling_counterexample:
  "\<not> halfPeriodMics - halfPeriodMics div 32 < (221::uint16) \<and> (200::uint16) \<le> 221
   \<and> OCR1A (scheduleTriacTrigger 200 221 init_state) = 5
   \<and> max 4 \<lceil>(real (unat (221::uint16)) - real (unat (200::uint16))) / 4\<rceil> = 6"
  by (simp add: scheduleTriacTrigger_def cutoff_value init_state_def)

text \<open>
  Claim C4, amended. For every call of \<^verbatim>\<open>scheduleTriacTrigger\<close> that arms the timer
  (delay not above the cutoff) with a delay of at least \<open>micsSinceZeroCross\<close>, the value
  written to \<^verbatim>\<open>OCR1A\<close> is at least 4 and is the difference of the two divided by 4,
  rounded down, and raised to 4 when below.
\<close>

theorem ticks_floor_clamped:
  assumes "\<not> halfPeriodMics - halfPeriodMics div 32 < delayMics"
      and "micsSinceZeroCross \<le> delayMics"
  shows "4 \<le> OCR1A (scheduleTriacTrigger micsSinceZeroCross delayMics s)
       \<and> uint (OCR1A (scheduleTriacTrigger micsSinceZeroCross delayMics s))
           = max 4 ((uint delayMics - uint micsSinceZeroCross) div 4)"
proof -
  let ?d = "delayMics - micsSinceZeroCross"
  have sub: "uint ?d = uint delayMics - uint micsSinceZeroCross"
    using assms(2) by (simp add: uint_sub_if' word_le_def)
  have quot: "uint (?d div 4) = (uint delayMics - uint micsSinceZeroCross) div 4"
    by (simp add: uint_div sub)
  have lt4: "?d div 4 < 4 \<longleftrightarrow> (uint delayMics - uint micsSinceZeroCross) div 4 < 4"
    by (simp add: word_less_def quot)
  show ?thesis
  proof (cases "micsSinceZeroCross < delayMics")
    case True
    then show ?thesis
      using assms(1) lt4 quot
      by (auto simp add: OCR1A_armed Let_def word_le_def)
  next
    case False
    with assms(2) have "micsSinceZeroCross = delayMics" by simp
    then show ?thesis
      using assms(1) by (simp add: OCR1A_armed)
  qed
qed

theorem ticks_floor_clamped_witness:
  "\<not> halfPeriodMics - halfPeriodMics div 32 < (221::uint16) \<and> (200::uint16) \<le> 221
   \<and> uint (OCR1A (scheduleTriacTrigger 200 221 init_state)) = 5"
proof -
  have a: "\<not> halfPeriodMics - halfPeriodMics div 32 < (221::uint16)"
    by (simp add: cutoff_value)
  have b: "(200::uint16) \<le> 221" by simp
  have "uint (OCR1A (scheduleTriacTrigger 200 221 init_state)) = 5"
    using ticks_floor_clamped [OF a b, of init_state] by simp
  with a b show ?thesis by simp
qed

section \<open>Frame properties\<close>

lemma triggerDelay_frame:
  "avgAboveThMics (snd (triggerDelay s)) = avgAboveThMics s"
  "avgBelowThMics (snd (triggerDelay s)) = avgBelowThMics s"
  "tsLastAboveThMics (snd (triggerDelay s)) = tsLastAboveThMics s"
  "tsLastBelowThMics (snd (triggerDelay s)) = tsLastBelowThMics s"
  by (simp_all add: triggerDelay_def Let_def)

lemma scheduleTriacTrigger_frame:
  "avgAboveThMics (scheduleTriacTrigger m d s) = avgAboveThMics s"
  "avgBelowThMics (scheduleTriacTrigger m d s) = avgBelowThMics s"
  "tsLastAboveThMics (scheduleTriacTrigger m d s) = tsLastAboveThMics s"
  "tsLastBelowThMics (scheduleTriacTrigger m d s) = tsLastBelowThMics s"
  "triacTriggerHoldoffMics (scheduleTriacTrigger m d s) = triacTriggerHoldoffMics s"
  "stepMics (scheduleTriacTrigger m d s) = stepMics s"
  by (simp_all add: scheduleTriacTrigger_def Let_def)

lemma triggerDelay_ramp_only:
  assumes "triacTriggerHoldoffMics t = triacTriggerHoldoffMics s" "stepMics t = stepMics s"
  shows "fst (triggerDelay t) = fst (triggerDelay s)"
    "stepMics (snd (triggerDelay t)) = stepMics (snd (triggerDelay s))"
  using assms by (simp_all add: triggerDelay_def Let_def)

section \<open>The delay ramp\<close>

lemma word_sum_sint:
  fixes h st :: "16 word"
  assumes "0 \<le> sint h + sint st" "sint h + sint st < 65536"
  shows "uint (h + st) = sint h + sint st"
proof -
  have "h + st = word_of_int (sint h + sint st)" by simp
  then have "uint (h + st) = (sint h + sint st) mod 2 ^ 16"
    by (simp only: uint_word_of_int) simp
  with assms show ?thesis by simp
qed

lemma sint_sum_small:
  fixes h st :: "16 word"
  assumes "0 \<le> sint h + sint st" "sint h + sint st \<le> 9000"
  shows "sint (h + st) = sint h + sint st"
proof -
  have "h + st = word_of_int (sint h + sint st)" by simp
  then have "sint (h + st) = signed_take_bit 15 (sint h + sint st)"
    by (simp only: sint_sbintrunc') simp
  also have "\<dots> = sint h + sint st"
    using assms by (intro signed_take_bit_int_eq_self) simp_all
  finally show ?thesis .
qed

lemma sint_neg_small:
  fixes st :: "16 word"
  assumes "- 200 \<le> sint st" "sint st \<le> 200"
  shows "sint (- st) = - sint st"
proof -
  have "- st = word_of_int (- sint st)" by simp
  then have "sint (- st) = signed_take_bit 15 (- sint st)"
    by (simp only: sint_sbintrunc') simp
  also have "\<dots> = - sint st"
    using assms by (intro signed_take_bit_int_eq_self) simp_all
  finally show ?thesis .
qed

lemma uint_eq_sint_nonneg:
  fixes h :: "16 word"
  assumes "0 \<le> sint h"
  shows "uint h = sint h"
proof -
  have "sint h < 2 ^ 16" using sint_lt [of h] by simp
  then have "take_bit 16 (sint h) = sint h"
    using assms by (intro take_bit_int_eq_self) simp_all
  then show ?thesis by (simp add: uint_sint)
qed

text \<open>Whatever the state, the value returned is within the bounds and is the new holdoff.\<close>

lemma triggerDelay_range:
  "minDelayMics \<le> fst (triggerDelay s) \<and> fst (triggerDelay s) \<le> maxDelayMics
   \<and> triacTriggerHoldoffMics (snd (triggerDelay s)) = fst (triggerDelay s)"
  by (auto simp add: triggerDelay_def Let_def maxDelay_value minDelayMics_def)

text \<open>One call is one step of the specification's rule, and stays within \<open>ramp_ok\<close>.\<close>

lemma triggerDelay_refines:
  assumes "ramp_ok s"
  shows "(uint (fst (triggerDelay s)), sint (stepMics (snd (triggerDelay s))))
           = spec_nextDelay (sint (triacTriggerHoldoffMics s), sint (stepMics s))
         \<and> ramp_ok (snd (triggerDelay s))"
proof -
  let ?h = "triacTriggerHoldoffMics s" and ?st = "stepMics s"
  from assms
  have b: "200 \<le> sint ?h" "sint ?h \<le> 10000" "- 200 \<le> sint ?st" "sint ?st \<le> 200"
    by (simp_all add: ramp_ok_def)
  have sum: "uint (?h + ?st) = sint ?h + sint ?st"
    using b by (intro word_sum_sint) simp_all
  have neg: "sint (- ?st) = - sint ?st"
    using b by (intro sint_neg_small) simp_all
  have le: "?h + ?st \<le> 200 \<longleftrightarrow> sint ?h + sint ?st \<le> 200"
    by (simp add: word_le_def sum)
  have ge: "9000 \<le> ?h + ?st \<longleftrightarrow> 9000 \<le> sint ?h + sint ?st"
    by (simp add: word_le_def sum)
  have mid: "sint (?h + ?st) = sint ?h + sint ?st"
    if "0 \<le> sint ?h + sint ?st" "sint ?h + sint ?st \<le> 9000"
    using that by (rule sint_sum_small)
  show ?thesis
    using b
    by (simp add: triggerDelay_def Let_def spec_nextDelay_def minDelayMics_def maxDelay_value
        le ge sum neg ramp_ok_def mid)
qed

lemma delays_range: "\<forall>d\<in>set (delays n s). minDelayMics \<le> d \<and> d \<le> maxDelayMics"
  by (induction n arbitrary: s) (simp_all add: triggerDelay_range)

lemma delays_refine:
  "ramp_ok s \<Longrightarrow>
   map uint (delays n s) = spec_delays n (sint (triacTriggerHoldoffMics s), sint (stepMics s))"
proof (induction n arbitrary: s)
  case 0
  then show ?case by simp
next
  case (Suc n)
  let ?s' = "snd (triggerDelay s)"
  from triggerDelay_refines [OF Suc.prems]
  have step: "spec_nextDelay (sint (triacTriggerHoldoffMics s), sint (stepMics s))
                = (uint (fst (triggerDelay s)), sint (stepMics ?s'))"
    and ok: "ramp_ok ?s'" by simp_all
  have "sint (triacTriggerHoldoffMics ?s') = uint (fst (triggerDelay s))"
    using ok triggerDelay_range [of s] by (simp add: ramp_ok_def uint_eq_sint_nonneg)
  with Suc.IH [OF ok] step show ?case by simp
qed

text \<open>Every state that a run reaches from the initial state is within \<open>ramp_ok\<close>.\<close>

lemma ramp_ok_triggerDelay: "ramp_ok s \<Longrightarrow> ramp_ok (snd (triggerDelay s))"
  using triggerDelay_refines [of s] by simp

lemma ramp_ok_exec: "ramp_ok s \<Longrightarrow> ramp_ok (exec ev s)"
proof (cases ev)
  case (Edge nowMics pin)
  assume ok: "ramp_ok s"
  show ?thesis
  proof (cases pin)
    case LOW
    have "ramp_ok (scheduleTriacTrigger m (fst (triggerDelay t)) (snd (triggerDelay t)))"
      if "ramp_ok t" for m t
      using ramp_ok_triggerDelay [OF that]
      by (simp add: ramp_ok_def scheduleTriacTrigger_frame)
    with ok Edge LOW show ?thesis
      by (simp add: voltageCrossedThreshold_def Let_def split_def softStart_def)
         (simp add: ramp_ok_def halfPeriodMics_def)
  next
    case HIGH
    with Edge ok show ?thesis
      by (simp add: voltageCrossedThreshold_def Let_def softStart_def ramp_ok_def halfPeriodMics_def)
  qed
next
  case TimerExpired
  assume "ramp_ok s"
  with TimerExpired show ?thesis by (simp add: TIMER1_COMPA_vect_def Let_def ramp_ok_def)
next
  case TriggerDelay
  assume "ramp_ok s"
  with TriggerDelay show ?thesis by (simp add: ramp_ok_triggerDelay)
next
  case SoftStart
  assume "ramp_ok s"
  with SoftStart show ?thesis by (simp add: softStart_def ramp_ok_def halfPeriodMics_def)
qed

lemma ramp_ok_run: "ramp_ok s \<Longrightarrow> ramp_ok (run evs s)"
  by (induction evs arbitrary: s) (simp_all add: ramp_ok_exec)

lemma ramp_ok_reachable: "ramp_ok (run evs init_state)"
  by (rule ramp_ok_run) (simp add: ramp_ok_def init_state_def halfPeriodMics_def)

text \<open>
  Claim C2. Every value that \<^verbatim>\<open>triggerDelay\<close> returns lies between \<open>minDelayMics = 200\<close>
  and \<open>maxDelayMics = 9000\<close>, from every state. Every state that the program reaches has
  its holdoff between 200 and 10000 and a step of magnitude at most 200 (the sketch's
  is 17); from such a state, one call is one step of the specification's rule (add the
  signed step, clamp at 200 and at 9000, flip the step's sign exactly when clamping) and
  leads to such a state again, so the values returned by any number of successive calls
  are the triangular sequence that the rule generates from the start state.
\<close>

theorem triggerDelay_triangular:
  "(\<forall>d\<in>set (delays n s). minDelayMics \<le> d \<and> d \<le> maxDelayMics)
   \<and> ramp_ok (run ops init_state)
   \<and> (ramp_ok s \<longrightarrow>
        (uint (fst (triggerDelay s)), sint (stepMics (snd (triggerDelay s))))
          = spec_nextDelay (sint (triacTriggerHoldoffMics s), sint (stepMics s))
        \<and> ramp_ok (snd (triggerDelay s))
        \<and> map uint (delays n s)
          = spec_delays n (sint (triacTriggerHoldoffMics s), sint (stepMics s)))"
  using delays_range [of n s] delays_refine [of s n] triggerDelay_refines [of s]
    ramp_ok_reachable [of ops]
  by simp

lemma init_ramp:
  "ramp_ok init_state" "sint (triacTriggerHoldoffMics init_state) = 10000"
  "sint (stepMics init_state) = - 17"
  by (simp_all add: ramp_ok_def init_state_def halfPeriodMics_def)

lemma spec_ramp_start:
  "take 4 (spec_delays 523 (10000, - 17)) = [9000, 9000, 8983, 8966]"
  by code_simp

lemma spec_ramp_turn:
  "drop 517 (spec_delays 523 (10000, - 17)) = [228, 211, 200, 217, 234, 251]"
  by code_simp

text \<open>
  From the initial state: the first two calls clamp at 9000, the ramp then falls by 17
  per call, clamps at 200 on the 520th call and rises by 17 per call from there.
\<close>

theorem triggerDelay_triangular_witness:
  "ramp_ok init_state
   \<and> take 4 (map uint (delays 523 init_state)) = [9000, 9000, 8983, 8966]
   \<and> drop 517 (map uint (delays 523 init_state)) = [228, 211, 200, 217, 234, 251]"
  using triggerDelay_triangular [of 523 init_state "[]"] init_ramp spec_ramp_turn spec_ramp_start
  by simp

section \<open>The range of the holdoff\<close>

lemma holdoff_ok_triggerDelay: "holdoff_ok (snd (triggerDelay s))"
  using triggerDelay_range [of s] by (simp add: holdoff_ok_def)

lemma holdoff_scheduleTriacTrigger:
  "triacTriggerHoldoffMics (scheduleTriacTrigger m d s) = triacTriggerHoldoffMics s"
  by (simp add: scheduleTriacTrigger_def Let_def)

lemma holdoff_ok_exec: "holdoff_ok s \<Longrightarrow> holdoff_ok (exec ev s)"
proof (cases ev)
  case (Edge nowMics pin)
  assume ok: "holdoff_ok s"
  show ?thesis
  proof (cases pin)
    case LOW
    have "holdoff_ok (scheduleTriacTrigger m (fst (triggerDelay t)) (snd (triggerDelay t)))"
      for m t
      using holdoff_ok_triggerDelay [of t]
      by (simp add: holdoff_ok_def holdoff_scheduleTriacTrigger)
    then show ?thesis
      using Edge LOW
      by (simp add: voltageCrossedThreshold_def Let_def split_def softStart_def)
         (simp add: holdoff_ok_def)
  next
    case HIGH
    with Edge ok show ?thesis
      by (simp add: voltageCrossedThreshold_def Let_def softStart_def holdoff_ok_def)
  qed
next
  case TimerExpired
  assume "holdoff_ok s"
  with TimerExpired show ?thesis by (simp add: TIMER1_COMPA_vect_def Let_def holdoff_ok_def)
next
  case TriggerDelay
  then show ?thesis by (simp add: holdoff_ok_triggerDelay)
next
  case SoftStart
  then show ?thesis by (simp add: softStart_def holdoff_ok_def)
qed

lemma holdoff_ok_run: "holdoff_ok s \<Longrightarrow> holdoff_ok (run evs s)"
  by (induction evs arbitrary: s) (simp_all add: holdoff_ok_exec)

text \<open>
  Claim C6, as stated, fails: the holdoff is initialised to the half period, 10000, and
  \<^verbatim>\<open>softStart\<close> sets it to the half period again; 10000 is above \<open>maxDelayMics = 9000\<close>.
\<close>

theorem holdoff_in_ramp_range_counterexample:
  "\<not> (minDelayMics \<le> triacTriggerHoldoffMics init_state
       \<and> triacTriggerHoldoffMics init_state \<le> maxDelayMics)
   \<and> \<not> (minDelayMics \<le> triacTriggerHoldoffMics (softStart (snd (triggerDelay init_state)))
       \<and> triacTriggerHoldoffMics (softStart (snd (triggerDelay init_state))) \<le> maxDelayMics)"
  by (simp add: init_state_def softStart_def maxDelay_value halfPeriodMics_def)

text \<open>
  Claim C6, amended. After initialisation and after \<^verbatim>\<open>softStart\<close> the holdoff is the half
  period (10000); after every call of \<^verbatim>\<open>triggerDelay\<close> it lies between
  \<open>minDelayMics = 200\<close> and \<open>maxDelayMics = 9000\<close>; and after any sequence of operations
  from the initial state (edges, timer expiries, calls of the two helper functions) it
  is one or the other, hence between 200 and 10000.
\<close>

theorem holdoff_range:
  "triacTriggerHoldoffMics init_state = halfPeriodMics
   \<and> triacTriggerHoldoffMics (softStart s) = halfPeriodMics
   \<and> minDelayMics \<le> triacTriggerHoldoffMics (snd (triggerDelay s))
   \<and> triacTriggerHoldoffMics (snd (triggerDelay s)) \<le> maxDelayMics
   \<and> holdoff_ok (run ops init_state)
   \<and> minDelayMics \<le> triacTriggerHoldoffMics (run ops init_state)
   \<and> triacTriggerHoldoffMics (run ops init_state) \<le> halfPeriodMics"
proof -
  have "holdoff_ok init_state" by (simp add: holdoff_ok_def init_state_def)
  then have ok: "holdoff_ok (run ops init_state)" by (rule holdoff_ok_run)
  have "maxDelayMics \<le> halfPeriodMics" "minDelayMics \<le> halfPeriodMics"
    by (simp_all add: maxDelay_value minDelayMics_def halfPeriodMics_def)
  with ok have "minDelayMics \<le> triacTriggerHoldoffMics (run ops init_state)
    \<and> triacTriggerHoldoffMics (run ops init_state) \<le> halfPeriodMics"
    unfolding holdoff_ok_def by (auto intro: order_trans)
  with ok triggerDelay_range [of s] show ?thesis
    by (simp add: init_state_def softStart_def)
qed

section \<open>The edge handler, branch by branch\<close>

text \<open>A rising and a falling edge whose interval does not exceed the half period.\<close>

lemma rising_short:
  assumes "\<not> 10000 < unat (nowMics - tsLastBelowThMics s)"
  shows "voltageCrossedThreshold nowMics LOW s =
     (let s3 = s\<lparr>DETECT_OUT_PIN := HIGH, tsLastAboveThMics := nowMics,
                  avgBelowThMics := smooth (avgBelowThMics s) (nowMics - tsLastBelowThMics s)\<rparr>
      in scheduleTriacTrigger (zeroCrossMics s3) (fst (triggerDelay s3)) (snd (triggerDelay s3)))"
proof -
  from assms have "\<not> (10000::ulong) < nowMics - tsLastBelowThMics s"
    by (simp add: word_less_nat_alt)
  then show ?thesis
    by (simp add: voltageCrossedThreshold_def halfPeriod_ulong Let_def split_def)
qed

lemma falling_short:
  assumes "\<not> 10000 < unat (nowMics - tsLastAboveThMics s)"
  shows "voltageCrossedThreshold nowMics HIGH s =
     s\<lparr>DETECT_OUT_PIN := LOW, tsLastBelowThMics := nowMics,
       avgAboveThMics := smooth (avgAboveThMics s) (nowMics - tsLastAboveThMics s)\<rparr>"
proof -
  from assms have "\<not> (10000::ulong) < nowMics - tsLastAboveThMics s"
    by (simp add: word_less_nat_alt)
  then show ?thesis
    by (simp add: voltageCrossedThreshold_def halfPeriod_ulong Let_def split_def)
qed

lemma triggerDelay_other_fields:
  "snd (triggerDelay (s\<lparr>DETECT_OUT_PIN := p, tsLastAboveThMics := t, avgBelowThMics := a\<rparr>))
     = (snd (triggerDelay s))\<lparr>DETECT_OUT_PIN := p, tsLastAboveThMics := t, avgBelowThMics := a\<rparr>"
  "fst (triggerDelay (s\<lparr>DETECT_OUT_PIN := p, tsLastAboveThMics := t, avgBelowThMics := a\<rparr>))
     = fst (triggerDelay s)"
  by (simp_all add: triggerDelay_def Let_def)

lemma falling_no_trigger:
  "TCNT1 (voltageCrossedThreshold nowMics HIGH s) = TCNT1 s
   \<and> TCCR1A (voltageCrossedThreshold nowMics HIGH s) = TCCR1A s
   \<and> OCR1A (voltageCrossedThreshold nowMics HIGH s) = OCR1A s
   \<and> TCCR1B (voltageCrossedThreshold nowMics HIGH s) = TCCR1B s
   \<and> stepMics (voltageCrossedThreshold nowMics HIGH s) = stepMics s"
  by (simp add: voltageCrossedThreshold_def Let_def softStart_def)

section \<open>What an edge does to the averages and to the timer\<close>

text \<open>
  Claim C5, as stated, fails in two places. The sketch converts
  \<^verbatim>\<open>(avgBelowThMics + 1.0) / 2\<close> to \<^verbatim>\<open>unsigned int\<close>, which discards the fraction: it
  does not round the quotient. After the edges of \<open>example_edges\<close> the average is
  \<open>4801/32 = 150.03125\<close>, the quotient is \<open>75.515625\<close>, the reference passed is 75 where
  rounding gives 76, and the compare register gets \<open>(8983 - 75) div 4 = 2227\<close> where a
  reference of 76 gives 2226. And a falling edge after more than a half period (here
  25000 microseconds) does not update \<^verbatim>\<open>avgAboveThMics\<close>: it stays 9600, where the
  smoothing rule gives \<open>10081.25\<close>.
\<close>

theorem zero_cross_reference_counterexample:
  "avgBelowThMics (run example_edges init_state) = 4801 / 32
   \<and> zeroCrossMics (run example_edges init_state) = 75
   \<and> round ((4801 / 32 + 1) / 2 :: real) = 76
   \<and> OCR1A (run example_edges init_state) = 2227
   \<and> OCR1A (scheduleTriacTrigger 76 8983 init_state) = 2226
   \<and> avgAboveThMics (voltageCrossedThreshold 25000 HIGH init_state) = 9600
   \<and> smooth 9600 (25000 - tsLastAboveThMics init_state) = 40325 / 4"
  by code_simp

text \<open>
  Claim C5, amended. On every rising transition whose interval does not exceed the half
  period, \<^verbatim>\<open>voltageCrossedThreshold\<close> assigns
  \<open>avgBelowThMics + (delta - avgBelowThMics) / 32\<close> (in \<^verbatim>\<open>float\<close> arithmetic, \<open>smooth\<close>)
  to \<^verbatim>\<open>avgBelowThMics\<close> and then calls \<^verbatim>\<open>scheduleTriacTrigger\<close> with, as first
  argument, \<open>(avgBelowThMics + 1) / 2\<close> of the updated average converted to
  \<^verbatim>\<open>unsigned int\<close> by truncation, and, as second argument, the value that
  \<^verbatim>\<open>triggerDelay\<close> returns on this call. On every falling transition whose interval does
  not exceed the half period, \<^verbatim>\<open>avgAboveThMics\<close> is updated by the same rule; and on
  every falling transition the timer registers and the step of the ramp keep their
  values: no trigger is scheduled.
\<close>

theorem edge_update_and_schedule:
  "(\<not> 10000 < unat (nowMics - tsLastBelowThMics s) \<longrightarrow>
      avgBelowThMics (voltageCrossedThreshold nowMics LOW s)
        = smooth (avgBelowThMics s) (nowMics - tsLastBelowThMics s)
      \<and> voltageCrossedThreshold nowMics LOW s
        = scheduleTriacTrigger
            (uint_of_float
              (fdiv (fadd (smooth (avgBelowThMics s) (nowMics - tsLastBelowThMics s)) 1) 2))
            (fst (triggerDelay s))
            ((snd (triggerDelay s))
               \<lparr>DETECT_OUT_PIN := HIGH, tsLastAboveThMics := nowMics,
                avgBelowThMics := smooth (avgBelowThMics s) (nowMics - tsLastBelowThMics s)\<rparr>))
   \<and> (\<not> 10000 < unat (nowMics - tsLastAboveThMics s) \<longrightarrow>
        avgAboveThMics (voltageCrossedThreshold nowMics HIGH s)
          = smooth (avgAboveThMics s) (nowMics - tsLastAboveThMics s))
   \<and> TCNT1 (voltageCrossedThreshold nowMics HIGH s) = TCNT1 s
   \<and> TCCR1A (voltageCrossedThreshold nowMics HIGH s) = TCCR1A s
   \<and> OCR1A (voltageCrossedThreshold nowMics HIGH s) = OCR1A s
   \<and> TCCR1B (voltageCrossedThreshold nowMics HIGH s) = TCCR1B s
   \<and> stepMics (voltageCrossedThreshold nowMics HIGH s) = stepMics s"
proof -
  have rising: "voltageCrossedThreshold nowMics LOW s
        = scheduleTriacTrigger
            (uint_of_float
              (fdiv (fadd (smooth (avgBelowThMics s) (nowMics - tsLastBelowThMics s)) 1) 2))
            (fst (triggerDelay s))
            ((snd (triggerDelay s))
               \<lparr>DETECT_OUT_PIN := HIGH, tsLastAboveThMics := nowMics,
                avgBelowThMics := smooth (avgBelowThMics s) (nowMics - tsLastBelowThMics s)\<rparr>)"
    if "\<not> 10000 < unat (nowMics - tsLastBelowThMics s)"
    using rising_short [OF that]
    by (simp add: Let_def triggerDelay_other_fields zeroCrossMics_def)
  have avg: "avgBelowThMics (voltageCrossedThreshold nowMics LOW s)
        = smooth (avgBelowThMics s) (nowMics - tsLastBelowThMics s)"
    if "\<not> 10000 < unat (nowMics - tsLastBelowThMics s)"
    by (simp add: rising [OF that] scheduleTriacTrigger_frame)
  have falling: "avgAboveThMics (voltageCrossedThreshold nowMics HIGH s)
          = smooth (avgAboveThMics s) (nowMics - tsLastAboveThMics s)"
    if "\<not> 10000 < unat (nowMics - tsLastAboveThMics s)"
    by (simp add: falling_short [OF that])
  from rising avg falling falling_no_trigger [of nowMics s] show ?thesis by blast
qed

lemma smooth_150_151: "smooth 150 151 = 4801 / 32" by code_simp
lemma smooth_9600_151: "smooth 9600 151 = 297751 / 32" by code_simp
lemma zero_cross_example: "uint_of_float (fdiv (fadd (4801 / 32) 1) 2) = 75" by code_simp

text \<open>A rising and a falling edge 151 microseconds after the start, from the initial state.\<close>

theorem edge_update_and_schedule_witness:
  "\<not> 10000 < unat (151 - tsLastBelowThMics init_state)
   \<and> \<not> 10000 < unat (151 - tsLastAboveThMics init_state)
   \<and> avgBelowThMics (voltageCrossedThreshold 151 LOW init_state) = 4801 / 32
   \<and> voltageCrossedThreshold 151 LOW init_state
       = scheduleTriacTrigger 75 (fst (triggerDelay init_state))
           ((snd (triggerDelay init_state))
              \<lparr>DETECT_OUT_PIN := HIGH, tsLastAboveThMics := 151, avgBelowThMics := 4801 / 32\<rparr>)
   \<and> avgAboveThMics (voltageCrossedThreshold 151 HIGH init_state) = 297751 / 32
   \<and> OCR1A (voltageCrossedThreshold 151 HIGH init_state) = 0"
proof -
  have a: "tsLastBelowThMics init_state = 0" "tsLastAboveThMics init_state = 0"
    "avgBelowThMics init_state = 150" "avgAboveThMics init_state = 9600" "OCR1A init_state = 0"
    by (simp_all add: init_state_def)
  from edge_update_and_schedule [of 151 init_state] show ?thesis
    by (simp add: a smooth_150_151 smooth_9600_151 zero_cross_example scheduleTriacTrigger_frame)
qed

text \<open>
  Claim C7, as stated, fails: an edge whose interval exceeds the half period updates
  neither average. From the initial state a falling edge at 25000 microseconds leaves
  \<^verbatim>\<open>avgAboveThMics\<close> at 9600 and \<^verbatim>\<open>avgBelowThMics\<close> at 150, where the smoothing rule
  would give \<open>10081.25\<close> and \<open>926.5625\<close>.
\<close>

theorem neither_average_updated_counterexample:
  "avgAboveThMics (voltageCrossedThreshold 25000 HIGH init_state) = 9600
   \<and> avgBelowThMics (voltageCrossedThreshold 25000 HIGH init_state) = 150
   \<and> avgAboveThMics init_state = 9600 \<and> avgBelowThMics init_state = 150
   \<and> smooth 9600 (25000 - tsLastAboveThMics init_state) = 40325 / 4
   \<and> smooth 150 (25000 - tsLastBelowThMics init_state) = 14825 / 16"
  by code_simp

text \<open>
  Claim C7, amended. For every edge handled by \<^verbatim>\<open>voltageCrossedThreshold\<close> at most one
  of the two averages is updated. When the interval does not exceed the half period,
  exactly one is assigned by the smoothing rule (\<^verbatim>\<open>avgBelowThMics\<close> on a rising edge,
  \<^verbatim>\<open>avgAboveThMics\<close> on a falling edge) and the other keeps its value; when the
  interval exceeds the half period both keep their values.
\<close>

theorem averages_per_edge:
  "avgBelowThMics (voltageCrossedThreshold nowMics LOW s)
     = (if 10000 < unat (nowMics - tsLastBelowThMics s) then avgBelowThMics s
        else smooth (avgBelowThMics s) (nowMics - tsLastBelowThMics s))
   \<and> avgAboveThMics (voltageCrossedThreshold nowMics LOW s) = avgAboveThMics s
   \<and> avgAboveThMics (voltageCrossedThreshold nowMics HIGH s)
     = (if 10000 < unat (nowMics - tsLastAboveThMics s) then avgAboveThMics s
        else smooth (avgAboveThMics s) (nowMics - tsLastAboveThMics s))
   \<and> avgBelowThMics (voltageCrossedThreshold nowMics HIGH s) = avgBelowThMics s"
proof -
  have "(10000 < unat (nowMics - tsLastBelowThMics s)) = ((10000::ulong) < nowMics - tsLastBelowThMics s)"
    "(10000 < unat (nowMics - tsLastAboveThMics s)) = ((10000::ulong) < nowMics - tsLastAboveThMics s)"
    by (simp_all add: word_less_nat_alt)
  then show ?thesis
    by (simp add: voltageCrossedThreshold_def Let_def split_def softStart_def halfPeriod_ulong
        scheduleTriacTrigger_frame triggerDelay_frame)
qed

section \<open>Wrap-around of the microsecond counter\<close>

lemma delta_of_nat:
  assumes "t0 \<le> t1" "t1 - t0 < 2 ^ 32"
  shows "(of_nat t1 :: ulong) - of_nat t0 = of_nat (t1 - t0)"
    and "unat ((of_nat t1 :: ulong) - of_nat t0) = t1 - t0"
proof -
  show eq: "(of_nat t1 :: ulong) - of_nat t0 = of_nat (t1 - t0)"
    using assms(1) by simp
  show "unat ((of_nat t1 :: ulong) - of_nat t0) = t1 - t0"
    unfolding eq using assms(2) by (simp add: unat_of_nat)
qed

text \<open>
  Claim C9. Let the true times of two edges be \<open>t0 \<le> t1\<close> microseconds; the counter
  shows \<open>t0 mod 2\<^sup>3\<^sup>2\<close> and \<open>t1 mod 2\<^sup>3\<^sup>2\<close>. The 32-bit difference of the two
  timestamps is the elapsed time modulo \<open>2\<^sup>3\<^sup>2\<close>. When the elapsed time is below
  \<open>2\<^sup>3\<^sup>2\<close>, the mains-loss test compares the elapsed time itself with the half
  period, the average is updated with the elapsed time itself, and
  \<^verbatim>\<open>voltageCrossedThreshold\<close> produces, whether the counter wrapped between the two
  edges or not, the state it produces when the earlier timestamp is 0 and the later one
  is the elapsed time, the two stored timestamps apart.
\<close>

theorem delta_wraparound:
  assumes "t0 \<le> t1" and "t1 - t0 < 2 ^ 32"
  shows "unat ((of_nat t1 :: ulong) - of_nat t0) = (t1 - t0) mod 2 ^ 32
    \<and> unat ((of_nat t1 :: ulong) - of_nat t0) = t1 - t0
    \<and> (ucast halfPeriodMics < (of_nat t1 :: ulong) - of_nat t0) = (10000 < t1 - t0)
    \<and> avgBelowThMics (voltageCrossedThreshold (of_nat t1) LOW (s\<lparr>tsLastBelowThMics := of_nat t0\<rparr>))
        = (if 10000 < t1 - t0 then avgBelowThMics s
           else smooth (avgBelowThMics s) (of_nat (t1 - t0)))
    \<and> avgAboveThMics (voltageCrossedThreshold (of_nat t1) HIGH (s\<lparr>tsLastAboveThMics := of_nat t0\<rparr>))
        = (if 10000 < t1 - t0 then avgAboveThMics s
           else smooth (avgAboveThMics s) (of_nat (t1 - t0)))
    \<and> voltageCrossedThreshold (of_nat t1) LOW (s\<lparr>tsLastBelowThMics := of_nat t0\<rparr>)
        = (voltageCrossedThreshold (of_nat (t1 - t0)) LOW (s\<lparr>tsLastBelowThMics := 0\<rparr>))
            \<lparr>tsLastAboveThMics := of_nat t1, tsLastBelowThMics := of_nat t0\<rparr>
    \<and> voltageCrossedThreshold (of_nat t1) HIGH (s\<lparr>tsLastAboveThMics := of_nat t0\<rparr>)
        = (voltageCrossedThreshold (of_nat (t1 - t0)) HIGH (s\<lparr>tsLastAboveThMics := 0\<rparr>))
            \<lparr>tsLastAboveThMics := of_nat t0, tsLastBelowThMics := of_nat t1\<rparr>"
proof -
  note d = delta_of_nat [OF assms]
  have test: "(ucast halfPeriodMics < (of_nat t1 :: ulong) - of_nat t0) = (10000 < t1 - t0)"
    by (simp add: halfPeriod_ulong word_less_nat_alt d(2))
  then have test': "((10000::ulong) < of_nat (t1 - t0)) = (10000 < t1 - t0)"
    by (simp add: halfPeriod_ulong d(1))
  have avg_low: "avgBelowThMics (voltageCrossedThreshold (of_nat t1) LOW (s\<lparr>tsLastBelowThMics := of_nat t0\<rparr>))
        = (if 10000 < t1 - t0 then avgBelowThMics s
           else smooth (avgBelowThMics s) (of_nat (t1 - t0)))"
    by (simp add: voltageCrossedThreshold_def Let_def split_def softStart_def halfPeriod_ulong
        scheduleTriacTrigger_frame triggerDelay_frame d(1) test')
  have avg_high: "avgAboveThMics (voltageCrossedThreshold (of_nat t1) HIGH (s\<lparr>tsLastAboveThMics := of_nat t0\<rparr>))
        = (if 10000 < t1 - t0 then avgAboveThMics s
           else smooth (avgAboveThMics s) (of_nat (t1 - t0)))"
    by (simp add: voltageCrossedThreshold_def Let_def softStart_def halfPeriod_ulong d(1) test')
  have low: "voltageCrossedThreshold (of_nat t1) LOW (s\<lparr>tsLastBelowThMics := of_nat t0\<rparr>)
        = (voltageCrossedThreshold (of_nat (t1 - t0)) LOW (s\<lparr>tsLastBelowThMics := 0\<rparr>))
            \<lparr>tsLastAboveThMics := of_nat t1, tsLastBelowThMics := of_nat t0\<rparr>"
    by (simp add: voltageCrossedThreshold_def Let_def split_def softStart_def triggerDelay_def
        scheduleTriacTrigger_def zeroCrossMics_def d(1))
  have high: "voltageCrossedThreshold (of_nat t1) HIGH (s\<lparr>tsLastAboveThMics := of_nat t0\<rparr>)
        = (voltageCrossedThreshold (of_nat (t1 - t0)) HIGH (s\<lparr>tsLastAboveThMics := 0\<rparr>))
            \<lparr>tsLastAboveThMics := of_nat t0, tsLastBelowThMics := of_nat t1\<rparr>"
    by (simp add: voltageCrossedThreshold_def Let_def softStart_def d(1))
  from d(2) assms(2) have "unat ((of_nat t1 :: ulong) - of_nat t0) = (t1 - t0) mod 2 ^ 32"
    by simp
  with d(2) test avg_low avg_high low high show ?thesis by (simp only: simp_thms)
qed

lemma smooth_150_400: "smooth 150 400 = 2525 / 16" by code_simp

text \<open>
  The counter wraps between a falling edge at 4294967000 and a rising edge at
  4294967400, which the counter shows as 104; the interval is 400.
\<close>

theorem delta_wraparound_witness:
  "(4294967000::nat) \<le> 4294967400 \<and> (4294967400::nat) - 4294967000 < 2 ^ 32
   \<and> (of_nat 4294967400 :: ulong) = 104
   \<and> unat ((of_nat 4294967400 :: ulong) - of_nat 4294967000) = 400
   \<and> avgBelowThMics (voltageCrossedThreshold (of_nat 4294967400) LOW
        (init_state\<lparr>tsLastBelowThMics := of_nat 4294967000\<rparr>)) = 2525 / 16"
proof -
  have a: "(4294967000::nat) \<le> 4294967400" by simp
  have b: "(4294967400::nat) - 4294967000 < 2 ^ 32" by simp
  have c: "(of_nat 4294967400 :: ulong) = 104" by simp
  have e: "(4294967400::nat) - 4294967000 = 400" by simp
  have f: "avgBelowThMics init_state = 150" by (simp add: init_state_def)
  from delta_wraparound [OF a b, of init_state]
  have w1: "unat ((of_nat 4294967400 :: ulong) - of_nat 4294967000) = 4294967400 - 4294967000"
    and w2: "avgBelowThMics (voltageCrossedThreshold (of_nat 4294967400) LOW
        (init_state\<lparr>tsLastBelowThMics := of_nat 4294967000\<rparr>))
          = (if 10000 < (4294967400::nat) - 4294967000 then avgBelowThMics init_state
             else smooth (avgBelowThMics init_state) (of_nat (4294967400 - 4294967000)))"
    by blast+
  from w1 have "unat ((of_nat 4294967400 :: ulong) - of_nat 4294967000) = 400"
    by (simp only: e)
  moreover from w2 have "avgBelowThMics (voltageCrossedThreshold (of_nat 4294967400) LOW
        (init_state\<lparr>tsLastBelowThMics := of_nat 4294967000\<rparr>)) = 2525 / 16"
    by (simp only: e f) (simp add: smooth_150_400)
  ultimately show ?thesis using a b c by (simp only: simp_thms)
qed

section \<open>Properties of the rounding\<close>

lemma pow2_powi: "pow2 e = 2 powi e"
  by (simp add: pow2_def power_int_def field_simps)

lemma pow2_pos: "0 < pow2 e"
  by (simp add: pow2_powi)

lemma pow2_add: "pow2 (a + b) = pow2 a * pow2 b"
  by (simp add: pow2_powi power_int_add)

lemma pow2_mono: "a \<le> b \<Longrightarrow> pow2 a \<le> pow2 b"
  by (simp add: pow2_powi power_int_increasing)

lemma pow2_strict_mono: "a < b \<Longrightarrow> pow2 a < pow2 b"
  by (simp add: pow2_powi power_int_strict_increasing)

lemma pow2_nat: "pow2 (int n) = 2 ^ n"
  by (simp add: pow2_def)

lemma pow2_numeral: "pow2 24 = 16777216" "pow2 23 = 8388608" "pow2 1 = 2" "pow2 0 = 1"
  by (simp_all add: pow2_def)

lemma float_exponent_bounds:
  assumes "x \<noteq> 0"
  shows "pow2 (float_exponent x) \<le> \<bar>x\<bar> \<and> \<bar>x\<bar> < pow2 (float_exponent x + 1)"
proof (cases "1 \<le> \<bar>x\<bar>")
  case True
  define n where "n = \<lfloor>\<bar>x\<bar>\<rfloor>"
  from True have n1: "1 \<le> n" by (simp add: n_def le_floor_iff)
  then have npos: "0 < n" by simp
  from bitlen_bounds [OF npos]
  have b1: "2 ^ nat (bitlen n - 1) \<le> n" and b2: "n < 2 ^ nat (bitlen n)" by simp_all
  have bl: "1 \<le> bitlen n"
    using npos by (simp add: bitlen_alt_def)
  have e: "float_exponent x = bitlen n - 1"
    using True by (simp add: float_exponent_def n_def)
  have "real_of_int (2 ^ nat (bitlen n - 1)) \<le> real_of_int n"
    using b1 by (simp only: of_int_le_iff)
  also have "real_of_int n \<le> \<bar>x\<bar>" by (simp add: n_def)
  finally have lo: "pow2 (float_exponent x) \<le> \<bar>x\<bar>"
    using bl by (simp add: e pow2_def)
  have "\<bar>x\<bar> < real_of_int (n + 1)" by (simp add: n_def)
  also have "real_of_int (n + 1) \<le> real_of_int (2 ^ nat (bitlen n))"
    using b2 by (simp only: of_int_le_iff)
  finally have hi: "\<bar>x\<bar> < pow2 (float_exponent x + 1)"
    using bl by (simp add: e pow2_def)
  from lo hi show ?thesis by simp
next
  case False
  with assms have x: "0 < \<bar>x\<bar>" "\<bar>x\<bar> < 1" by simp_all
  define y where "y = 1 / \<bar>x\<bar>"
  from x have y1: "1 < y" by (simp add: y_def)
  define m where "m = \<lceil>y\<rceil> - 1"
  have m1: "1 \<le> m" using y1 by (simp add: m_def less_ceiling_iff)
  then have mpos: "0 < m" by simp
  from bitlen_bounds [OF mpos]
  have b1: "2 ^ nat (bitlen m - 1) \<le> m" and b2: "m < 2 ^ nat (bitlen m)" by simp_all
  have bl: "1 \<le> bitlen m" using mpos by (simp add: bitlen_alt_def)
  define k where "k = nat (bitlen m)"
  have k1: "1 \<le> k" "bitlen m = int k" using bl by (simp_all add: k_def)
  have e: "float_exponent x = - int k"
    using False k1 by (simp add: float_exponent_def y_def m_def)
  have ym: "real_of_int m < y" "y \<le> real_of_int m + 1"
    using ceiling_correct [of y] by (simp_all add: m_def)
  have "m + 1 \<le> 2 ^ k" using b2 by (simp add: k_def)
  then have "real_of_int (m + 1) \<le> real_of_int (2 ^ k)" by (simp only: of_int_le_iff)
  then have "real_of_int m + 1 \<le> 2 ^ k" by simp
  with ym have yk: "y \<le> 2 ^ k" by linarith
  have "nat (bitlen m - 1) = k - 1" using bl by (simp add: k_def nat_diff_distrib)
  with b1 have "2 ^ (k - 1) \<le> m" by simp
  then have "real_of_int (2 ^ (k - 1)) \<le> real_of_int m" by (simp only: of_int_le_iff)
  then have "2 ^ (k - 1) \<le> real_of_int m" by simp
  with ym have yk': "2 ^ (k - 1) < y" by linarith
  have xy: "\<bar>x\<bar> = 1 / y" using x by (simp add: y_def)
  have lo: "pow2 (float_exponent x) \<le> \<bar>x\<bar>"
    using yk y1 k1 by (simp add: e pow2_def xy field_simps)
  have "pow2 (float_exponent x + 1) = 1 / 2 ^ (k - 1)"
    using k1 by (cases k) (simp_all add: e pow2_def)
  moreover have "0 < y" using y1 by simp
  then have "1 / y < 1 / 2 ^ (k - 1)"
    using yk' by (intro divide_strict_left_mono) simp_all
  ultimately have hi: "\<bar>x\<bar> < pow2 (float_exponent x + 1)"
    by (simp only: xy)
  from lo hi show ?thesis by simp
qed

lemma round_ties_even_err: "\<bar>real_of_int (round_ties_even y) - y\<bar> \<le> 1 / 2"
proof -
  have "real_of_int \<lfloor>y\<rfloor> \<le> y" "y < real_of_int \<lfloor>y\<rfloor> + 1" by linarith+
  then show ?thesis
    by (auto simp add: round_ties_even_def Let_def)
qed

lemma round_ties_even_of_int: "round_ties_even (of_int k) = k"
  by (simp add: round_ties_even_def)

lemma round_ties_even_range:
  "\<lfloor>y\<rfloor> \<le> round_ties_even y \<and> round_ties_even y \<le> \<lfloor>y\<rfloor> + 1"
  by (simp add: round_ties_even_def Let_def)

lemma round_ties_even_mono:
  assumes "y \<le> z"
  shows "round_ties_even y \<le> round_ties_even z"
proof (cases "\<lfloor>y\<rfloor> = \<lfloor>z\<rfloor>")
  case True
  with assms show ?thesis
    by (auto simp add: round_ties_even_def Let_def)
next
  case False
  from assms have "\<lfloor>y\<rfloor> \<le> \<lfloor>z\<rfloor>" by (rule floor_mono)
  with False have "\<lfloor>y\<rfloor> + 1 \<le> \<lfloor>z\<rfloor>" by simp
  with round_ties_even_range [of y] round_ties_even_range [of z] show ?thesis by linarith
qed

lemma pow2_shift:
  "pow2 e = pow2 (e - 23) * 8388608" "pow2 (e + 1) = pow2 (e - 23) * 16777216"
proof -
  have "pow2 (e - 23 + 23) = pow2 (e - 23) * pow2 23" by (rule pow2_add)
  moreover have "e - 23 + 23 = e" by simp
  ultimately show "pow2 e = pow2 (e - 23) * 8388608" by (simp add: pow2_numeral)
  have "pow2 (e - 23 + 24) = pow2 (e - 23) * pow2 24" by (rule pow2_add)
  moreover have "e - 23 + 24 = e + 1" by simp
  ultimately show "pow2 (e + 1) = pow2 (e - 23) * 16777216" by (simp add: pow2_numeral)
qed

lemma scaled_bounds:
  assumes "0 < x"
  defines "q \<equiv> pow2 (float_exponent x - 23)"
  shows "8388608 \<le> x / q \<and> x / q < 16777216 \<and> 0 < q"
proof -
  have q: "0 < q" by (simp add: q_def pow2_pos)
  from assms(1) have "x \<noteq> 0" by simp
  from float_exponent_bounds [OF this] assms(1)
  have lo: "pow2 (float_exponent x) \<le> x" and hi: "x < pow2 (float_exponent x + 1)" by simp_all
  have e1: "pow2 (float_exponent x) = q * 8388608"
    and e2: "pow2 (float_exponent x + 1) = q * 16777216"
    using pow2_shift [of "float_exponent x"] by (simp_all add: q_def)
  from lo hi q show ?thesis
    unfolding e1 e2 by (simp add: field_simps)
qed

lemma to_float_pos:
  assumes "0 < x"
  shows "to_float x = real_of_int (round_ties_even (x / pow2 (float_exponent x - 23)))
                        * pow2 (float_exponent x - 23)"
  using assms by (simp add: to_float_def Let_def)

lemma to_float_zero: "to_float 0 = 0"
  by (simp add: to_float_def)

lemma to_float_error:
  assumes "0 \<le> x"
  shows "\<bar>to_float x - x\<bar> \<le> x / 16777216"
proof (cases "x = 0")
  case True
  then show ?thesis by (simp add: to_float_zero)
next
  case False
  with assms have x: "0 < x" by simp
  define q where "q = pow2 (float_exponent x - 23)"
  from scaled_bounds [OF x] have b: "8388608 \<le> x / q" "0 < q" by (simp_all add: q_def)
  have "\<bar>to_float x - x\<bar> = \<bar>real_of_int (round_ties_even (x / q)) - x / q\<bar> * q"
  proof -
    have "to_float x - x = (real_of_int (round_ties_even (x / q)) - x / q) * q"
      using b(2) by (simp add: to_float_pos [OF x] q_def field_simps)
    then show ?thesis using b(2) by (simp add: abs_mult)
  qed
  also have "\<dots> \<le> 1 / 2 * q"
    using round_ties_even_err [of "x / q"] b(2) by (intro mult_right_mono) simp_all
  also have "\<dots> \<le> x / 16777216"
    using b by (simp add: field_simps)
  finally show ?thesis .
qed

lemma to_float_mono:
  assumes "0 \<le> x" "x \<le> y"
  shows "to_float x \<le> to_float y"
proof (cases "x = 0")
  case True
  from assms have "0 \<le> y" by simp
  from to_float_error [OF this] \<open>0 \<le> y\<close> have "0 \<le> to_float y" by linarith
  with True show ?thesis by (simp add: to_float_zero)
next
  case False
  with assms have x: "0 < x" and y: "0 < y" by simp_all
  define qx where "qx = pow2 (float_exponent x - 23)"
  define qy where "qy = pow2 (float_exponent y - 23)"
  from scaled_bounds [OF x] have bx: "8388608 \<le> x / qx" "x / qx < 16777216" "0 < qx"
    by (simp_all add: qx_def)
  from scaled_bounds [OF y] have "by": "8388608 \<le> y / qy" "y / qy < 16777216" "0 < qy"
    by (simp_all add: qy_def)
  have fx: "to_float x = real_of_int (round_ties_even (x / qx)) * qx"
    by (simp add: to_float_pos [OF x] qx_def)
  have fy: "to_float y = real_of_int (round_ties_even (y / qy)) * qy"
    by (simp add: to_float_pos [OF y] qy_def)
  from x float_exponent_bounds [of x] have ex: "pow2 (float_exponent x) \<le> x" by simp
  from y float_exponent_bounds [of y] have ey: "y < pow2 (float_exponent y + 1)" by simp
  from ex ey assms(2) have "pow2 (float_exponent x) < pow2 (float_exponent y + 1)" by linarith
  then have "float_exponent x < float_exponent y + 1"
    using pow2_mono [of "float_exponent y + 1" "float_exponent x"] by (cases "float_exponent x < float_exponent y + 1") simp_all
  then consider "float_exponent x = float_exponent y" | "float_exponent x + 1 \<le> float_exponent y"
    by linarith
  then show ?thesis
  proof cases
    case 1
    then have qq: "qx = qy" by (simp add: qx_def qy_def)
    have "x / qy \<le> y / qy" using assms(2) "by"(3) by (simp add: divide_right_mono)
    then have "round_ties_even (x / qy) \<le> round_ties_even (y / qy)" by (rule round_ties_even_mono)
    then have "real_of_int (round_ties_even (x / qy)) \<le> real_of_int (round_ties_even (y / qy))" by simp
    then show ?thesis unfolding fx fy qq using "by"(3) by (intro mult_right_mono) simp_all
  next
    case 2
    have "round_ties_even (x / qx) \<le> round_ties_even (of_int 16777216)"
      using bx(2) by (intro round_ties_even_mono) simp
    then have "round_ties_even (x / qx) \<le> 16777216" by (simp only: round_ties_even_of_int)
    then have "real_of_int (round_ties_even (x / qx)) \<le> 16777216" by simp
    then have "to_float x \<le> 16777216 * qx" unfolding fx using bx(3) by (intro mult_right_mono) simp_all
    also have "16777216 * qx = pow2 (float_exponent x + 1)"
      using pow2_shift(2) [of "float_exponent x"] by (simp add: qx_def)
    also have "\<dots> \<le> pow2 (float_exponent y)" using 2 by (rule pow2_mono)
    also have "\<dots> = 8388608 * qy"
      using pow2_shift(1) [of "float_exponent y"] by (simp add: qy_def)
    also have "\<dots> \<le> to_float y"
    proof -
      have "round_ties_even (of_int 8388608) \<le> round_ties_even (y / qy)"
        using "by"(1) by (intro round_ties_even_mono) simp
      then have "8388608 \<le> round_ties_even (y / qy)" by (simp only: round_ties_even_of_int)
      then have "8388608 \<le> real_of_int (round_ties_even (y / qy))" by simp
      then show ?thesis unfolding fy using "by"(3) by (intro mult_right_mono) simp_all
    qed
    finally show ?thesis .
  qed
qed

lemma to_float_bounds:
  assumes "0 \<le> x"
  shows "x * 16777215 \<le> to_float x * 16777216" "to_float x * 16777216 \<le> x * 16777217"
proof -
  from to_float_error [OF assms]
  have e: "to_float x - x \<le> x / 16777216 \<and> - (to_float x - x) \<le> x / 16777216"
    by (simp only: abs_le_iff)
  then show "x * 16777215 \<le> to_float x * 16777216" by argo
  from e show "to_float x * 16777216 \<le> x * 16777217" by argo
qed

lemma to_float_400: "to_float 400 = 400" by code_simp
lemma float_of_ulong_400: "float_of_ulong 400 = 400" by code_simp
lemma smooth_9600: "smooth 9600 9600 = 9600" by code_simp

lemma smooth_400_step:
  assumes "0 \<le> a" "a \<le> 400"
  shows "0 \<le> smooth a 400 \<and> smooth a 400 \<le> 400
       \<and> 400 - smooth a 400 \<le> (400 - a) * (969 / 1000) + 31 / 1000000"
proof -
  define u where "u = to_float (400 - a)"
  define v where "v = to_float (u / 32)"
  define a' where "a' = to_float (a + v)"
  have s: "smooth a 400 = a'"
    by (simp add: smooth_def fadd_def fdiv_def fsub_def float_of_ulong_400 u_def v_def a'_def)
  from assms have "0 \<le> 400 - a" by simp
  from to_float_bounds [OF this]
  have u: "(400 - a) * 16777215 \<le> u * 16777216" "u * 16777216 \<le> (400 - a) * 16777217"
    by (simp_all add: u_def)
  with assms have u0: "0 \<le> u" by argo
  then have "0 \<le> u / 32" by simp
  from to_float_bounds [OF this]
  have v: "u * 16777215 \<le> v * 536870912" "v * 536870912 \<le> u * 16777217"
    by (simp_all add: v_def)
  with u0 have v0: "0 \<le> v" by argo
  with assms have av0: "0 \<le> a + v" by simp
  from to_float_bounds [OF this]
  have a': "(a + v) * 16777215 \<le> a' * 16777216"
    by (simp_all add: a'_def)
  from u assms have "u \<le> (400 - a) * 2" by argo
  moreover from v u0 have "v \<le> u / 16" by argo
  ultimately have av: "a + v \<le> 400" using assms by argo
  from to_float_mono [OF av0 av] have hi: "a' \<le> 400" by (simp add: a'_def to_float_400)
  from a' av0 have lo: "0 \<le> a'" by argo
  from u v a' av assms have "400 - a' \<le> (400 - a) * (969 / 1000) + 31 / 1000000"
    by argo
  with hi lo show ?thesis by (simp add: s)
qed

section \<open>The 50 Hz scenario\<close>

lemma run_append: "run (xs @ ys) s = run ys (run xs s)"
  by (induction xs arbitrary: s) simp_all

lemma scenario_first_cycle:
  "run (scenario (Suc 0)) init_state =
     \<lparr>avgAboveThMics = 9600, avgBelowThMics = 2325 / 16,
       triacTriggerHoldoffMics = 9000, stepMics = 17, tsLastAboveThMics = 0,
       tsLastBelowThMics = 9600, TCNT1 = 0, TCCR1A = 0, OCR1A = 2231,
       TCCR1B = 11, TRIAC_TRIGGER_PIN = HIGH, DETECT_OUT_PIN = LOW\<rparr>"
  by code_simp

lemma sint_ramp:
  assumes "ramp_ok s"
  shows "(sint (triacTriggerHoldoffMics (snd (triggerDelay s))), sint (stepMics (snd (triggerDelay s))))
           = spec_nextDelay (sint (triacTriggerHoldoffMics s), sint (stepMics s))"
proof -
  from triggerDelay_refines [OF assms]
  have r: "(uint (fst (triggerDelay s)), sint (stepMics (snd (triggerDelay s))))
             = spec_nextDelay (sint (triacTriggerHoldoffMics s), sint (stepMics s))"
    and ok: "ramp_ok (snd (triggerDelay s))" by simp_all
  have "sint (triacTriggerHoldoffMics (snd (triggerDelay s))) = uint (fst (triggerDelay s))"
    using ok triggerDelay_range [of s] by (simp add: ramp_ok_def uint_eq_sint_nonneg)
  with r show ?thesis by simp
qed

lemma cycle_step:
  assumes ts: "tsLastBelowThMics s = 10000 * of_nat m + 9600"
    and above: "avgAboveThMics s = 9600"
  defines "s' \<equiv> run [Edge (10000 * of_nat (Suc m)) LOW, Edge (10000 * of_nat (Suc m) + 9600) HIGH] s"
  shows "tsLastBelowThMics s' = 10000 * of_nat (Suc m) + 9600"
    and "avgAboveThMics s' = 9600"
    and "avgBelowThMics s' = smooth (avgBelowThMics s) 400"
    and "triacTriggerHoldoffMics s' = triacTriggerHoldoffMics (snd (triggerDelay s))"
    and "stepMics s' = stepMics (snd (triggerDelay s))"
proof -
  define now where "now = (10000 * of_nat (Suc m) :: ulong)"
  define r where "r = voltageCrossedThreshold now LOW s"
  have d1: "now - tsLastBelowThMics s = 400"
    by (simp add: now_def ts algebra_simps)
  define s3 where "s3 = s\<lparr>DETECT_OUT_PIN := HIGH, tsLastAboveThMics := now,
                  avgBelowThMics := smooth (avgBelowThMics s) 400\<rparr>"
  have r_eq: "r = scheduleTriacTrigger (zeroCrossMics s3) (fst (triggerDelay s3)) (snd (triggerDelay s3))"
    unfolding r_def s3_def using rising_short [of now s]
    by (simp add: d1 Let_def)
  have s3_ramp: "triacTriggerHoldoffMics s3 = triacTriggerHoldoffMics s" "stepMics s3 = stepMics s"
    by (simp_all add: s3_def)
  have r1: "tsLastAboveThMics r = now"
    "tsLastBelowThMics r = tsLastBelowThMics s"
    "avgAboveThMics r = 9600"
    "avgBelowThMics r = smooth (avgBelowThMics s) 400"
    by (simp_all add: r_eq scheduleTriacTrigger_frame triggerDelay_frame s3_def above)
  have r2: "triacTriggerHoldoffMics r = triacTriggerHoldoffMics (snd (triggerDelay s))"
    "stepMics r = stepMics (snd (triggerDelay s))"
    using triggerDelay_ramp_only [OF s3_ramp] triggerDelay_range [of s3] triggerDelay_range [of s]
    by (simp_all add: r_eq scheduleTriacTrigger_frame)
  have d2: "now + 9600 - tsLastAboveThMics r = 9600"
    by (simp add: r1)
  have "s' = voltageCrossedThreshold (now + 9600) HIGH r"
    by (simp add: s'_def r_def now_def)
  then have s'_eq: "s' = r\<lparr>DETECT_OUT_PIN := LOW, tsLastBelowThMics := now + 9600,
       avgAboveThMics := smooth (avgAboveThMics r) 9600\<rparr>"
    using falling_short [of "now + 9600" r]
    by (simp add: d2)
  show "tsLastBelowThMics s' = 10000 * of_nat (Suc m) + 9600" by (simp add: s'_eq now_def)
  show "avgAboveThMics s' = 9600" by (simp add: s'_eq r1 smooth_9600)
  show "avgBelowThMics s' = smooth (avgBelowThMics s) 400" by (simp add: s'_eq r1)
  show "triacTriggerHoldoffMics s' = triacTriggerHoldoffMics (snd (triggerDelay s))"
    by (simp add: s'_eq r2)
  show "stepMics s' = stepMics (snd (triggerDelay s))" by (simp add: s'_eq r2)
qed

lemma scenario_invariant:
  "tsLastBelowThMics (run (scenario (Suc m)) init_state) = 10000 * of_nat m + 9600
   \<and> avgAboveThMics (run (scenario (Suc m)) init_state) = 9600
   \<and> 0 \<le> avgBelowThMics (run (scenario (Suc m)) init_state)
   \<and> avgBelowThMics (run (scenario (Suc m)) init_state) \<le> 400
   \<and> 400 - avgBelowThMics (run (scenario (Suc m)) init_state)
        \<le> 4075 / 16 * (969 / 1000) ^ m + 1 / 1000
   \<and> ramp_ok (run (scenario (Suc m)) init_state)
   \<and> (sint (triacTriggerHoldoffMics (run (scenario (Suc m)) init_state)),
       sint (stepMics (run (scenario (Suc m)) init_state)))
        = (spec_nextDelay ^^ Suc m) (10000, - 17)"
proof (induction m)
  case 0
  show ?case
    by (simp only: scenario_first_cycle) (simp add: ramp_ok_def spec_nextDelay_def)
next
  case (Suc m)
  define s where "s = run (scenario (Suc m)) init_state"
  define s' where "s' = run (scenario (Suc (Suc m))) init_state"
  have s': "s' = run [Edge (10000 * of_nat (Suc m)) LOW, Edge (10000 * of_nat (Suc m) + 9600) HIGH] s"
    unfolding s'_def s_def by (simp only: scenario.simps run_append)
  from Suc.IH have ts: "tsLastBelowThMics s = 10000 * of_nat m + 9600"
    and above: "avgAboveThMics s = 9600"
    and a0: "0 \<le> avgBelowThMics s" and a400: "avgBelowThMics s \<le> 400"
    and conv: "400 - avgBelowThMics s \<le> 4075 / 16 * (969 / 1000) ^ m + 1 / 1000"
    and ok: "ramp_ok s"
    and ramp: "(sint (triacTriggerHoldoffMics s), sint (stepMics s)) = (spec_nextDelay ^^ Suc m) (10000, - 17)"
    by (simp_all only: s_def)
  note c = cycle_step [OF ts above, folded s']
  from smooth_400_step [OF a0 a400]
  have b: "0 \<le> avgBelowThMics s'" "avgBelowThMics s' \<le> 400"
    "400 - avgBelowThMics s' \<le> (400 - avgBelowThMics s) * (969 / 1000) + 31 / 1000000"
    by (simp_all add: c)
  have conv': "400 - avgBelowThMics s' \<le> 4075 / 16 * (969 / 1000) ^ Suc m + 1 / 1000"
  proof -
    define p where "p = (969 / 1000 :: real) ^ m"
    have ps: "(969 / 1000 :: real) ^ Suc m = p * (969 / 1000)" by (simp add: p_def)
    from conv have "400 - avgBelowThMics s \<le> 4075 / 16 * p + 1 / 1000" by (simp only: p_def)
    with b(3) have "400 - avgBelowThMics s' \<le> 4075 / 16 * (p * (969 / 1000)) + 1 / 1000"
      by argo
    then show ?thesis by (simp only: ps)
  qed
  from triggerDelay_refines [OF ok] have "ramp_ok (snd (triggerDelay s))" by simp
  then have ok': "ramp_ok s'" by (simp add: ramp_ok_def c)
  have ramp': "(sint (triacTriggerHoldoffMics s'), sint (stepMics s')) = (spec_nextDelay ^^ Suc (Suc m)) (10000, - 17)"
    using sint_ramp [OF ok] ramp by (simp add: c)
  from c(1,2) b(1,2) conv' ok' ramp' show ?case
    unfolding s'_def by (simp only: simp_thms)
qed

lemma length_spec_delays: "length (spec_delays n hs) = n"
  by (induction n arbitrary: hs) simp_all

lemma nth_spec_delays:
  "k < n \<Longrightarrow> spec_delays n hs ! k = fst ((spec_nextDelay ^^ Suc k) hs)"
proof (induction n arbitrary: hs k)
  case 0
  then show ?case by simp
next
  case (Suc n)
  show ?case
  proof (cases k)
    case 0
    then show ?thesis by simp
  next
    case (Suc j)
    with Suc.prems have "j < n" by simp
    from Suc.IH [OF this, of "spec_nextDelay hs"] Suc show ?thesis
      by (simp add: funpow_swap1)
  qed
qed

lemma spec_delays_range: "set (spec_delays n hs) \<subseteq> {200..9000}"
  by (induction n arbitrary: hs) (auto simp add: spec_nextDelay_def Let_def)

lemma scenario_delays:
  "map (\<lambda>k. sint (triacTriggerHoldoffMics (run (scenario (Suc k)) init_state))) [0..<n]
     = spec_delays n (10000, - 17)"
proof (rule nth_equalityI)
  show "length (map (\<lambda>k. sint (triacTriggerHoldoffMics (run (scenario (Suc k)) init_state))) [0..<n])
          = length (spec_delays n (10000, - 17))"
    by (simp add: length_spec_delays)
next
  fix i
  assume "i < length (map (\<lambda>k. sint (triacTriggerHoldoffMics (run (scenario (Suc k)) init_state))) [0..<n])"
  then have i: "i < n" by simp
  from scenario_invariant [of i]
  have "sint (triacTriggerHoldoffMics (run (scenario (Suc i)) init_state))
          = fst ((spec_nextDelay ^^ Suc i) (10000, - 17))"
    by (metis fst_conv)
  with i show "map (\<lambda>k. sint (triacTriggerHoldoffMics (run (scenario (Suc k)) init_state))) [0..<n] ! i
          = spec_delays n (10000, - 17) ! i"
    by (simp add: nth_spec_delays)
qed

lemma geometric_bound_32:
  assumes "31 \<le> m"
  shows "4075 / 16 * (969 / 1000 :: real) ^ m + 1 / 1000 \<le> 100"
proof -
  have "(969 / 1000 :: real) ^ m \<le> (969 / 1000) ^ 31"
    using assms by (intro power_decreasing) simp_all
  then have "4075 / 16 * (969 / 1000 :: real) ^ m \<le> 4075 / 16 * (969 / 1000) ^ 31"
    by (intro mult_left_mono) simp_all
  also have "4075 / 16 * (969 / 1000 :: real) ^ 31 \<le> 99" by (simp add: power_divide)
  finally show ?thesis by simp
qed

text \<open>What each cycle of the scenario hands to the scheduler, and the timer after it.\<close>

lemma scenario_Suc_run:
  "run (scenario (Suc k)) init_state
     = voltageCrossedThreshold (10000 * of_nat k + 9600) HIGH (after_rising k)"
  by (simp add: run_append after_rising_def)

lemma cycle_delta:
  "\<not> 10000 < unat (10000 * of_nat k - tsLastBelowThMics (run (scenario k) init_state))"
proof (cases k)
  case 0
  then show ?thesis by (simp add: init_state_def)
next
  case (Suc m)
  from scenario_invariant [of m]
  have ts: "tsLastBelowThMics (run (scenario (Suc m)) init_state) = 10000 * of_nat m + 9600"
    by (rule conjunct1)
  have "10000 * of_nat (Suc m) - (10000 * of_nat m + 9600) = (400 :: ulong)"
    by (simp add: algebra_simps)
  then show ?thesis unfolding Suc ts by simp
qed

lemma cycle_ramp:
  "ramp_ok (run (scenario k) init_state)
   \<and> (sint (triacTriggerHoldoffMics (run (scenario k) init_state)),
       sint (stepMics (run (scenario k) init_state)))
        = (spec_nextDelay ^^ k) (10000, - 17)"
proof (cases k)
  case 0
  then show ?thesis by (simp add: init_ramp)
next
  case (Suc m)
  with scenario_invariant [of m] show ?thesis by (simp only: simp_thms)
qed

lemma scheduled_delay:
  "uint (fst (triggerDelay (run (scenario k) init_state)))
     = fst ((spec_nextDelay ^^ Suc k) (10000, - 17))"
proof -
  from cycle_ramp [of k]
  have ok: "ramp_ok (run (scenario k) init_state)"
    and r: "(sint (triacTriggerHoldoffMics (run (scenario k) init_state)),
       sint (stepMics (run (scenario k) init_state)))
        = (spec_nextDelay ^^ k) (10000, - 17)" by simp_all
  from triggerDelay_refines [OF ok]
  have "uint (fst (triggerDelay (run (scenario k) init_state)))
          = fst (spec_nextDelay (sint (triacTriggerHoldoffMics (run (scenario k) init_state)),
                                 sint (stepMics (run (scenario k) init_state))))"
    by (metis fst_conv)
  then show ?thesis by (simp only: r funpow.simps comp_apply)
qed

lemma delay_below_cutoff:
  "\<not> halfPeriodMics - halfPeriodMics div 32 < fst (triggerDelay s)"
proof -
  from triggerDelay_range [of s] have "fst (triggerDelay s) \<le> 9000"
    by (simp add: maxDelay_value)
  also have "(9000 :: uint16) \<le> 9688" by simp
  finally show ?thesis by (simp add: cutoff_value not_less)
qed

lemma armed_registers:
  assumes "\<not> halfPeriodMics - halfPeriodMics div 32 < d"
  shows "TCNT1 (scheduleTriacTrigger z d s) = 0"
    and "TCCR1A (scheduleTriacTrigger z d s) = 0"
    and "TCCR1B (scheduleTriacTrigger z d s) = 11"
    and "uint (OCR1A (scheduleTriacTrigger z d s)) = max 4 ((uint d - uint z) div 4)"
proof -
  show "TCNT1 (scheduleTriacTrigger z d s) = 0" "TCCR1A (scheduleTriacTrigger z d s) = 0"
    "TCCR1B (scheduleTriacTrigger z d s) = 11"
    using assms by (simp_all add: scheduleTriacTrigger_def Let_def CS10_def CS11_def WGM12_def)
  show "uint (OCR1A (scheduleTriacTrigger z d s)) = max 4 ((uint d - uint z) div 4)"
  proof (cases "z < d")
    case True
    then have sub: "uint (d - z) = uint d - uint z"
      by (simp add: uint_sub_if' word_le_def word_less_def)
    have quot: "uint ((d - z) div 4) = (uint d - uint z) div 4"
      by (simp add: uint_div sub)
    have lt4: "(d - z) div 4 < 4 \<longleftrightarrow> (uint d - uint z) div 4 < 4"
      by (simp add: word_less_def quot)
    from True assms lt4 quot show ?thesis
      by (auto simp add: OCR1A_armed Let_def)
  next
    case False
    then have "uint d \<le> uint z" by (simp add: word_less_def)
    then have "(uint d - uint z) div 4 \<le> 0" by simp
    with False assms show ?thesis by (simp add: OCR1A_armed)
  qed
qed

lemma after_rising_scheduled:
  "after_rising k =
     scheduleTriacTrigger (zeroCrossMics (after_rising k))
       (word_of_int (fst ((spec_nextDelay ^^ Suc k) (10000, - 17))))
       ((snd (triggerDelay (run (scenario k) init_state)))
          \<lparr>DETECT_OUT_PIN := HIGH, tsLastAboveThMics := 10000 * of_nat k,
           avgBelowThMics := avgBelowThMics (after_rising k)\<rparr>)"
proof -
  define s where "s = run (scenario k) init_state"
  define now where "now = (10000 * of_nat k :: ulong)"
  define a where "a = smooth (avgBelowThMics s) (now - tsLastBelowThMics s)"
  have short: "\<not> 10000 < unat (now - tsLastBelowThMics s)"
    unfolding now_def s_def by (rule cycle_delta)
  have r: "after_rising k =
      scheduleTriacTrigger
        (zeroCrossMics (s\<lparr>DETECT_OUT_PIN := HIGH, tsLastAboveThMics := now, avgBelowThMics := a\<rparr>))
        (fst (triggerDelay s))
        ((snd (triggerDelay s))\<lparr>DETECT_OUT_PIN := HIGH, tsLastAboveThMics := now, avgBelowThMics := a\<rparr>)"
    using rising_short [OF short]
    by (simp add: after_rising_def s_def [symmetric] now_def [symmetric] a_def Let_def
        triggerDelay_other_fields)
  have avg: "avgBelowThMics (after_rising k) = a"
    by (simp add: r scheduleTriacTrigger_frame)
  have z: "zeroCrossMics (s\<lparr>DETECT_OUT_PIN := HIGH, tsLastAboveThMics := now, avgBelowThMics := a\<rparr>)
             = zeroCrossMics (after_rising k)"
    by (simp add: zeroCrossMics_def avg)
  have d: "fst (triggerDelay s) = word_of_int (fst ((spec_nextDelay ^^ Suc k) (10000, - 17)))"
    using scheduled_delay [of k] unfolding s_def [symmetric] by (metis word_of_int_uint)
  from r have r2: "after_rising k =
      scheduleTriacTrigger (zeroCrossMics (after_rising k))
        (word_of_int (fst ((spec_nextDelay ^^ Suc k) (10000, - 17))))
        ((snd (triggerDelay s))\<lparr>DETECT_OUT_PIN := HIGH, tsLastAboveThMics := now, avgBelowThMics := a\<rparr>)"
    by (simp only: z d)
  show ?thesis
    unfolding avg using r2 [unfolded s_def now_def] .
qed

lemma cycle_timer:
  "TCNT1 (run (scenario (Suc k)) init_state) = 0
   \<and> TCCR1A (run (scenario (Suc k)) init_state) = 0
   \<and> TCCR1B (run (scenario (Suc k)) init_state) = 11
   \<and> uint (OCR1A (run (scenario (Suc k)) init_state))
       = max 4 ((fst ((spec_nextDelay ^^ Suc k) (10000, - 17))
                 - uint (zeroCrossMics (run (scenario (Suc k)) init_state))) div 4)"
proof -
  define s where "s = run (scenario k) init_state"
  define d where "d = fst (triggerDelay s)"
  define t where "t = (snd (triggerDelay s))
          \<lparr>DETECT_OUT_PIN := HIGH, tsLastAboveThMics := 10000 * of_nat k,
           avgBelowThMics := avgBelowThMics (after_rising k)\<rparr>"
  have dd: "word_of_int (fst ((spec_nextDelay ^^ Suc k) (10000, - 17))) = d"
    using scheduled_delay [of k] unfolding s_def [symmetric] d_def by (metis word_of_int_uint)
  have ud: "uint d = fst ((spec_nextDelay ^^ Suc k) (10000, - 17))"
    using scheduled_delay [of k] by (simp add: d_def s_def)
  have r: "after_rising k = scheduleTriacTrigger (zeroCrossMics (after_rising k)) d t"
    using after_rising_scheduled [of k] unfolding dd s_def [symmetric] t_def [symmetric] .
  have cut: "\<not> halfPeriodMics - halfPeriodMics div 32 < d"
    unfolding d_def by (rule delay_below_cutoff)
  note a = armed_registers [OF cut, of "zeroCrossMics (after_rising k)" t, folded r]
  have f: "TCNT1 (run (scenario (Suc k)) init_state) = TCNT1 (after_rising k)"
    "TCCR1A (run (scenario (Suc k)) init_state) = TCCR1A (after_rising k)"
    "OCR1A (run (scenario (Suc k)) init_state) = OCR1A (after_rising k)"
    "TCCR1B (run (scenario (Suc k)) init_state) = TCCR1B (after_rising k)"
    unfolding scenario_Suc_run
    using falling_no_trigger [of "10000 * of_nat k + 9600" "after_rising k"]
    by simp_all
  have "avgBelowThMics (run (scenario (Suc k)) init_state) = avgBelowThMics (after_rising k)"
    unfolding scenario_Suc_run
    by (simp add: voltageCrossedThreshold_def Let_def softStart_def)
  then have z: "zeroCrossMics (run (scenario (Suc k)) init_state) = zeroCrossMics (after_rising k)"
    by (simp add: zeroCrossMics_def)
  from a show ?thesis unfolding f z ud by simp
qed

text \<open>
  Claim C8, as stated, fails: the two averages are the other way round, and the time
  below the threshold is 400 microseconds in this scenario. \<^verbatim>\<open>avgAboveThMics\<close>, the
  average of the intervals from a rising to the next falling edge, is 9600 after 32
  cycles, 9450 away from 150; \<^verbatim>\<open>avgBelowThMics\<close> is at most 400, at least 9200 away
  from 9600.
\<close>

theorem scenario_averages_counterexample:
  "avgAboveThMics (run (scenario 32) init_state) - 150 = 9450
   \<and> 9200 \<le> 9600 - avgBelowThMics (run (scenario 32) init_state)"
proof -
  have "Suc 31 = 32" by simp
  with scenario_invariant [of 31]
  have "avgAboveThMics (run (scenario 32) init_state) = 9600"
    and "avgBelowThMics (run (scenario 32) init_state) \<le> 400"
    by simp_all
  then show ?thesis by simp
qed

text \<open>
  Claim C8, amended. When rising edges are fed at 0, 10000, 20000, \<dots> microseconds and
  falling edges at 9600, 19600, \<dots>, then after 32 or more cycles \<^verbatim>\<open>avgAboveThMics\<close> is
  9600 (exactly) and \<^verbatim>\<open>avgBelowThMics\<close> lies between 300 and 400, approaching 400
  geometrically (after \<open>n\<close> cycles it is within \<open>254.6875 \<times> 0.969\<^sup>n\<^sup>-\<^sup>1 + 0.001\<close> of 400);
  and the successively scheduled delays trace the triangular ramp: in every cycle \<open>k\<close>
  the rising edge ends in the call of \<^verbatim>\<open>scheduleTriacTrigger\<close> whose delay argument is
  the \<open>k\<close>-th value of the ramp that the specification's rule generates from the holdoff
  10000 and the step -17, all these values being between 200 and 9000; the call arms
  the timer, and the falling edge leaves it armed: after the cycle \<^verbatim>\<open>TCNT1\<close> and
  \<^verbatim>\<open>TCCR1A\<close> are 0, \<^verbatim>\<open>TCCR1B\<close> is 11 (prescaler 64, CTC mode) and \<^verbatim>\<open>OCR1A\<close> is that
  delay less the zero-cross reference, divided by 4 and rounded down, at least 4. The
  holdoff after the cycle is the same delay.
\<close>

theorem scenario_50Hz:
  assumes "32 \<le> n"
  shows "avgAboveThMics (run (scenario n) init_state) = 9600
     \<and> 300 \<le> avgBelowThMics (run (scenario n) init_state)
     \<and> avgBelowThMics (run (scenario n) init_state) \<le> 400
     \<and> 400 - avgBelowThMics (run (scenario n) init_state)
          \<le> 4075 / 16 * (969 / 1000) ^ (n - 1) + 1 / 1000
     \<and> map (\<lambda>k. sint (triacTriggerHoldoffMics (run (scenario (Suc k)) init_state))) [0..<n]
          = spec_delays n (10000, - 17)
     \<and> set (spec_delays n (10000, - 17)) \<subseteq> {200..9000}
     \<and> (\<forall>k<n.
          after_rising k
            = scheduleTriacTrigger (zeroCrossMics (after_rising k))
                (word_of_int (spec_delays n (10000, - 17) ! k))
                ((snd (triggerDelay (run (scenario k) init_state)))
                   \<lparr>DETECT_OUT_PIN := HIGH, tsLastAboveThMics := 10000 * of_nat k,
                    avgBelowThMics := avgBelowThMics (after_rising k)\<rparr>)
          \<and> run (scenario (Suc k)) init_state
            = voltageCrossedThreshold (10000 * of_nat k + 9600) HIGH (after_rising k)
          \<and> TCNT1 (run (scenario (Suc k)) init_state) = 0
          \<and> TCCR1A (run (scenario (Suc k)) init_state) = 0
          \<and> TCCR1B (run (scenario (Suc k)) init_state) = 11
          \<and> uint (OCR1A (run (scenario (Suc k)) init_state))
            = max 4 ((spec_delays n (10000, - 17) ! k
                      - uint (zeroCrossMics (run (scenario (Suc k)) init_state))) div 4))"
proof -
  from assms obtain m where n: "n = Suc m" and m: "31 \<le> m"
    by (cases n) simp_all
  from scenario_invariant [of m]
  have a: "avgAboveThMics (run (scenario n) init_state) = 9600"
    and b: "avgBelowThMics (run (scenario n) init_state) \<le> 400"
    and c: "400 - avgBelowThMics (run (scenario n) init_state)
              \<le> 4075 / 16 * (969 / 1000) ^ (n - 1) + 1 / 1000"
    by (simp_all add: n)
  from c geometric_bound_32 [OF m] have d: "300 \<le> avgBelowThMics (run (scenario n) init_state)"
    by (simp add: n)
  have e: "after_rising k
            = scheduleTriacTrigger (zeroCrossMics (after_rising k))
                (word_of_int (spec_delays n (10000, - 17) ! k))
                ((snd (triggerDelay (run (scenario k) init_state)))
                   \<lparr>DETECT_OUT_PIN := HIGH, tsLastAboveThMics := 10000 * of_nat k,
                    avgBelowThMics := avgBelowThMics (after_rising k)\<rparr>)
          \<and> run (scenario (Suc k)) init_state
            = voltageCrossedThreshold (10000 * of_nat k + 9600) HIGH (after_rising k)
          \<and> TCNT1 (run (scenario (Suc k)) init_state) = 0
          \<and> TCCR1A (run (scenario (Suc k)) init_state) = 0
          \<and> TCCR1B (run (scenario (Suc k)) init_state) = 11
          \<and> uint (OCR1A (run (scenario (Suc k)) init_state))
            = max 4 ((spec_delays n (10000, - 17) ! k
                      - uint (zeroCrossMics (run (scenario (Suc k)) init_state))) div 4)"
    if "k < n" for k
    unfolding nth_spec_delays [OF that]
    using after_rising_scheduled [of k] scenario_Suc_run [of k] cycle_timer [of k]
    by (simp only: simp_thms)
  from a b c d e scenario_delays [of n] spec_delays_range [of n "(10000, - 17)"]
  show ?thesis by blast
qed

lemma spec_delays_32:
  "spec_delays 32 (10000, - 17) =
     [9000, 9000, 8983, 8966, 8949, 8932, 8915, 8898, 8881, 8864, 8847, 8830, 8813, 8796,
      8779, 8762, 8745, 8728, 8711, 8694, 8677, 8660, 8643, 8626, 8609, 8592, 8575, 8558,
      8541, 8524, 8507, 8490]"
  by code_simp

lemma zero_cross_first_cycle: "zeroCrossMics (run (scenario (Suc 0)) init_state) = 73"
  unfolding scenario_first_cycle by code_simp

text \<open>
  After 32 cycles the ramp has fallen from 9000 to 8490. The first cycle programs 2231
  ticks for the delay 9000 and the reference 73; the 32nd cycle programs the timer for
  the delay 8490.
\<close>

theorem scenario_50Hz_witness:
  "(32::nat) \<le> 32
   \<and> avgAboveThMics (run (scenario 32) init_state) = 9600
   \<and> 300 \<le> avgBelowThMics (run (scenario 32) init_state)
   \<and> avgBelowThMics (run (scenario 32) init_state) \<le> 400
   \<and> map (\<lambda>k. sint (triacTriggerHoldoffMics (run (scenario (Suc k)) init_state))) [0..<32]
      = [9000, 9000, 8983, 8966, 8949, 8932, 8915, 8898, 8881, 8864, 8847, 8830, 8813, 8796,
         8779, 8762, 8745, 8728, 8711, 8694, 8677, 8660, 8643, 8626, 8609, 8592, 8575, 8558,
         8541, 8524, 8507, 8490]
   \<and> TCCR1B (run (scenario (Suc 0)) init_state) = 11
   \<and> uint (OCR1A (run (scenario (Suc 0)) init_state)) = 2231
   \<and> TCCR1B (run (scenario (Suc 31)) init_state) = 11
   \<and> uint (OCR1A (run (scenario (Suc 31)) init_state))
       = max 4 ((8490 - uint (zeroCrossMics (run (scenario (Suc 31)) init_state))) div 4)"
proof -
  have le: "(32::nat) \<le> 32" by simp
  note t = scenario_50Hz [OF le, unfolded spec_delays_32]
  from t have main: "avgAboveThMics (run (scenario 32) init_state) = 9600"
    "300 \<le> avgBelowThMics (run (scenario 32) init_state)"
    "avgBelowThMics (run (scenario 32) init_state) \<le> 400"
    "map (\<lambda>k. sint (triacTriggerHoldoffMics (run (scenario (Suc k)) init_state))) [0..<32]
      = [9000, 9000, 8983, 8966, 8949, 8932, 8915, 8898, 8881, 8864, 8847, 8830, 8813, 8796,
         8779, 8762, 8745, 8728, 8711, 8694, 8677, 8660, 8643, 8626, 8609, 8592, 8575, 8558,
         8541, 8524, 8507, 8490]"
    by blast+
  from t have cyc: "\<forall>k<32.
       TCCR1B (run (scenario (Suc k)) init_state) = 11
       \<and> uint (OCR1A (run (scenario (Suc k)) init_state))
            = max 4 (([9000, 9000, 8983, 8966, 8949, 8932, 8915, 8898, 8881, 8864, 8847, 8830,
                       8813, 8796, 8779, 8762, 8745, 8728, 8711, 8694, 8677, 8660, 8643, 8626,
                       8609, 8592, 8575, 8558, 8541, 8524, 8507, 8490] ! k
                      - uint (zeroCrossMics (run (scenario (Suc k)) init_state))) div 4)"
    by blast
  have "(0::nat) < 32" by simp
  with cyc have c0: "TCCR1B (run (scenario (Suc 0)) init_state) = 11
    \<and> uint (OCR1A (run (scenario (Suc 0)) init_state))
       = max 4 (([9000, 9000, 8983, 8966, 8949, 8932, 8915, 8898, 8881, 8864, 8847, 8830,
                       8813, 8796, 8779, 8762, 8745, 8728, 8711, 8694, 8677, 8660, 8643, 8626,
                       8609, 8592, 8575, 8558, 8541, 8524, 8507, 8490] ! 0
                 - uint (zeroCrossMics (run (scenario (Suc 0)) init_state))) div 4)"
    by blast
  have nth0: "[9000, 9000, 8983, 8966, 8949, 8932, 8915, 8898, 8881, 8864, 8847, 8830,
                       8813, 8796, 8779, 8762, 8745, 8728, 8711, 8694, 8677, 8660, 8643, 8626,
                       8609, 8592, 8575, 8558, 8541, 8524, 8507, 8490] ! 0 = (9000::int)"
    by simp
  have calc: "max 4 ((9000 - uint (73 :: uint16)) div 4) = 2231" by simp
  from c0 have c0': "TCCR1B (run (scenario (Suc 0)) init_state) = 11"
    "uint (OCR1A (run (scenario (Suc 0)) init_state)) = 2231"
    unfolding nth0 zero_cross_first_cycle calc by blast+
  have "(31::nat) < 32" by simp
  with cyc have c31: "TCCR1B (run (scenario (Suc 31)) init_state) = 11
    \<and> uint (OCR1A (run (scenario (Suc 31)) init_state))
       = max 4 (([9000, 9000, 8983, 8966, 8949, 8932, 8915, 8898, 8881, 8864, 8847, 8830,
                       8813, 8796, 8779, 8762, 8745, 8728, 8711, 8694, 8677, 8660, 8643, 8626,
                       8609, 8592, 8575, 8558, 8541, 8524, 8507, 8490] ! 31
                 - uint (zeroCrossMics (run (scenario (Suc 31)) init_state))) div 4)"
    by blast
  have nth31: "[9000, 9000, 8983, 8966, 8949, 8932, 8915, 8898, 8881, 8864, 8847, 8830,
                       8813, 8796, 8779, 8762, 8745, 8728, 8711, 8694, 8677, 8660, 8643, 8626,
                       8609, 8592, 8575, 8558, 8541, 8524, 8507, 8490] ! 31 = (8490::int)"
    by code_simp
  from c31 have c31': "TCCR1B (run (scenario (Suc 31)) init_state) = 11"
    "uint (OCR1A (run (scenario (Suc 31)) init_state))
       = max 4 ((8490 - uint (zeroCrossMics (run (scenario (Suc 31)) init_state))) div 4)"
    unfolding nth31 by blast+
  from le main c0' c31' show ?thesis by (simp only: simp_thms)
qed

end
